theory Spec2Isabelle
  imports Main "HOL-Library.Sublist"
begin

section \<open>Client registry (openfort/core/client.ts)\<close>

text \<open>
  An \<open>OpenfortClient\<close> is an object of the external SDK. Two things about it matter to the
  registry: which object it is (object identity, here the number of the allocation that
  produced it) and the configuration it was constructed from. The module state is the
  variable \<open>defaultClient\<close> together with the count of objects constructed so far, so that
  "constructs no new instance" is a statement about that counter.
\<close>

record 'cfg OpenfortClient =
  ident :: nat
  config :: 'cfg

record 'cfg module_state =
  defaultClient :: "'cfg OpenfortClient option"
  constructed :: nat

datatype js_error = Error string

definition new_OpenfortClient ::
  "'cfg \<Rightarrow> 'cfg module_state \<Rightarrow> 'cfg OpenfortClient \<times> 'cfg module_state" where
  "new_OpenfortClient cfg st =
     (\<lparr>ident = constructed st, config = cfg\<rparr>, st\<lparr>constructed := Suc (constructed st)\<rparr>)"

definition createOpenfortClient ::
  "'cfg \<Rightarrow> 'cfg module_state \<Rightarrow> 'cfg OpenfortClient \<times> 'cfg module_state" where
  "createOpenfortClient cfg st = new_OpenfortClient cfg st"

definition not_initialized_message :: string where
  "not_initialized_message =
     ''Openfort client not initialized. Make sure to wrap your app with OpenfortProvider.''"

text \<open>
  \<open>getDefaultClient(options?)\<close>: the optional argument is \<open>None\<close> when it is left out. The
  first \<open>if\<close> initialises the variable, the second one throws.
\<close>

definition getDefaultClient ::
  "'cfg option \<Rightarrow> 'cfg module_state \<Rightarrow> (js_error + 'cfg OpenfortClient) \<times> 'cfg module_state" where
  "getDefaultClient options st =
     (let st1 = (case (defaultClient st, options) of
                   (None, Some cfg) \<Rightarrow>
                     (case new_OpenfortClient cfg st of
                        (c, st') \<Rightarrow> st'\<lparr>defaultClient := Some c\<rparr>)
                 | _ \<Rightarrow> st)
      in case defaultClient st1 of
           None \<Rightarrow> (Inl (Error not_initialized_message), st1)
         | Some c \<Rightarrow> (Inr c, st1))"

definition setDefaultClient :: "'cfg OpenfortClient \<Rightarrow> 'cfg module_state \<Rightarrow> 'cfg module_state" where
  "setDefaultClient client st = st\<lparr>defaultClient := Some client\<rparr>"

text \<open>The state of the module when it has just been loaded: \<open>let defaultClient = null\<close>.\<close>

definition initial_module_state :: "'cfg module_state" where
  "initial_module_state = \<lparr>defaultClient = None, constructed = 0\<rparr>"

text \<open>
  Sequences of calls into the module, for the statements about what holds "forever":
  a call is one of the three exported functions, and a run records what each
  \<open>getDefaultClient\<close> call produced.
\<close>

datatype 'cfg call =
    CallCreate 'cfg
  | CallGet "'cfg option"
  | CallSet "'cfg OpenfortClient"

fun is_CallSet :: "'cfg call \<Rightarrow> bool" where
  "is_CallSet (CallSet _) = True"
| "is_CallSet _ = False"

fun run_calls ::
  "'cfg call list \<Rightarrow> 'cfg module_state \<Rightarrow>
     (js_error + 'cfg OpenfortClient) list \<times> 'cfg module_state" where
  "run_calls [] st = ([], st)"
| "run_calls (CallCreate cfg # cs) st = run_calls cs (snd (createOpenfortClient cfg st))"
| "run_calls (CallSet c # cs) st = run_calls cs (setDefaultClient c st)"
| "run_calls (CallGet opt # cs) st =
     (case getDefaultClient opt st of
        (r, st') \<Rightarrow> (case run_calls cs st' of (rs, st'') \<Rightarrow> (r # rs, st'')))"

section \<open>JavaScript values used by the components\<close>

text \<open>
  A string-valued expression that may be \<open>undefined\<close> or \<open>null\<close> is a \<open>string option\<close>.
  In a condition, JavaScript takes it as true exactly when it is a non-empty string.
\<close>

fun truthy :: "string option \<Rightarrow> bool" where
  "truthy None = False"
| "truthy (Some s) = (s \<noteq> [])"

text \<open>\<open>x + s\<close> for a string \<open>s\<close> and an \<open>x\<close> that may be \<open>undefined\<close>.\<close>

fun js_plus :: "string option \<Rightarrow> string \<Rightarrow> string" where
  "js_plus None s = ''undefined'' @ s"
| "js_plus (Some x) s = x @ s"

section \<open>Error logging of the connect hook (hooks/useConnect.tsx)\<close>

text \<open>
  The error handed to \<open>onError\<close> has a \<open>message\<close>, which may be absent, and whatever else the
  connector put into it. \<open>context.log\<close> is modelled by the list of its calls, oldest first:
  each call has a text and the error object.
\<close>

record 'a connect_error =
  message :: "string option"
  detail :: 'a

type_synonym 'a context_log = "(string \<times> 'a connect_error) list"

definition onError :: "'a connect_error \<Rightarrow> 'a context_log \<Rightarrow> 'a context_log" where
  "onError err lg =
     (if truthy (message err) then
        (case message err of
           Some m \<Rightarrow> (if m \<noteq> ''User rejected request'' then lg @ [(m, err)] else lg)
         | None \<Rightarrow> lg)
      else lg @ [(''Could not connect.'', err)])"

section \<open>Default transports (createTransport and getDefaultTransports)\<close>

text \<open>
  \<open>http(url)\<close> and \<open>webSocket(url)\<close> of the connector library build a transport from an
  optional URL; \<open>http()\<close> without a URL is the public transport of the chain.
  \<open>fallback(urls)\<close> keeps the list in order.
\<close>

datatype transport = Http "string option" | WebSocket "string option"

datatype fallback_transport = Fallback "transport list"

datatype provider = ProviderAlchemy | ProviderInfura | ProviderPublic

record provider_urls =
  http :: "string option"
  webSocket :: "string option"

record rpc_urls =
  alchemy :: "provider_urls option"
  infura :: "provider_urls option"

record chain_config =
  config_id :: nat
  rpcUrls :: "rpc_urls option"

record chain =
  chain_id :: nat

text \<open>
  The table \<open>chainConfigs\<close> is imported from \<open>./constants/chainConfigs\<close>; it is a parameter
  of the functions here. \<open>x?.http\<close> on an entry that may be missing:
\<close>

fun opt_http :: "provider_urls option \<Rightarrow> string option" where
  "opt_http None = None"
| "opt_http (Some u) = http u"

fun opt_webSocket :: "provider_urls option \<Rightarrow> string option" where
  "opt_webSocket None = None"
| "opt_webSocket (Some u) = webSocket u"

definition provider_transport :: "provider_urls option \<Rightarrow> string \<Rightarrow> transport" where
  "provider_transport u apiKey =
     (if truthy (opt_http u) then Http (Some (js_plus (opt_http u) apiKey))
      else WebSocket (Some (js_plus (opt_webSocket u) apiKey)))"

definition createTransport :: "chain_config list \<Rightarrow> chain \<Rightarrow> provider \<Rightarrow> string \<Rightarrow> transport" where
  "createTransport chainConfigs ch prov apiKey =
     (case find (\<lambda>c. config_id c = chain_id ch) chainConfigs of
        None \<Rightarrow> Http None
      | Some supportedChain \<Rightarrow>
          (case rpcUrls supportedChain of
             None \<Rightarrow> Http None
           | Some urls \<Rightarrow>
               (case prov of
                  ProviderAlchemy \<Rightarrow> provider_transport (alchemy urls) apiKey
                | ProviderInfura \<Rightarrow> provider_transport (infura urls) apiKey
                | ProviderPublic \<Rightarrow> Http None)))"

text \<open>\<open>if (key) urls.push(createTransport({ chain, provider, apiKey: key }))\<close>\<close>

definition push_provider ::
  "chain_config list \<Rightarrow> chain \<Rightarrow> provider \<Rightarrow> string option \<Rightarrow> transport list" where
  "push_provider chainConfigs ch prov key =
     (case key of
        Some k \<Rightarrow> (if k \<noteq> [] then [createTransport chainConfigs ch prov k] else [])
      | None \<Rightarrow> [])"

definition chain_urls ::
  "chain_config list \<Rightarrow> string option \<Rightarrow> string option \<Rightarrow> chain \<Rightarrow> transport list" where
  "chain_urls chainConfigs alchemyId infuraId ch =
     push_provider chainConfigs ch ProviderAlchemy alchemyId
     @ push_provider chainConfigs ch ProviderInfura infuraId
     @ [Http None]"

text \<open>The default of \<open>chains\<close>: mainnet, polygon, optimism, arbitrum, by their chain ids.\<close>

definition default_chains :: "chain list" where
  "default_chains = [\<lparr>chain_id = 1\<rparr>, \<lparr>chain_id = 137\<rparr>, \<lparr>chain_id = 10\<rparr>, \<lparr>chain_id = 42161\<rparr>]"

text \<open>
  The loop over the chains writes \<open>transports[chain.id] = fallback(urls)\<close>; a chain id that
  comes twice is written twice.
\<close>

fun assign_transports ::
  "chain_config list \<Rightarrow> string option \<Rightarrow> string option \<Rightarrow> chain list \<Rightarrow>
     (nat \<rightharpoonup> fallback_transport) \<Rightarrow> (nat \<rightharpoonup> fallback_transport)" where
  "assign_transports chainConfigs alchemyId infuraId [] transports = transports"
| "assign_transports chainConfigs alchemyId infuraId (ch # chs) transports =
     assign_transports chainConfigs alchemyId infuraId chs
       (transports(chain_id ch \<mapsto> Fallback (chain_urls chainConfigs alchemyId infuraId ch)))"

definition getDefaultTransports ::
  "chain_config list \<Rightarrow> chain list option \<Rightarrow> string option \<Rightarrow> string option \<Rightarrow>
     (nat \<rightharpoonup> fallback_transport)" where
  "getDefaultTransports chainConfigs chains_arg alchemyId infuraId =
     assign_transports chainConfigs alchemyId infuraId
       (case chains_arg of None \<Rightarrow> default_chains | Some chs \<Rightarrow> chs) Map.empty"

section \<open>Strings, URLs and query strings of the browser\<close>

text \<open>
  Strings are sequences of bytes (UTF-8); percent-decoding gives the bytes as they are.
  \<open>s.replace(pat, rep)\<close> with a string pattern replaces the leftmost occurrence of
  \<open>pat\<close> and nothing else (the replacement text used here has no \<open>$\<close> pattern).
\<close>

fun String_replace :: "string \<Rightarrow> string \<Rightarrow> string \<Rightarrow> string" where
  "String_replace pat rep [] = (if pat = [] then rep else [])"
| "String_replace pat rep (c # cs) =
     (if prefix pat (c # cs) then rep @ drop (length pat) (c # cs)
      else c # String_replace pat rep cs)"

subsection \<open>The application/x-www-form-urlencoded format\<close>

definition hex_digit :: "nat \<Rightarrow> char" where
  "hex_digit n = (if n < 10 then char_of (48 + n) else char_of (55 + n))"

definition hex_value :: "char \<Rightarrow> nat option" where
  "hex_value c =
     (let n = (of_char c :: nat) in
      if 48 \<le> n \<and> n \<le> 57 then Some (n - 48)
      else if 65 \<le> n \<and> n \<le> 70 then Some (n - 55)
      else if 97 \<le> n \<and> n \<le> 102 then Some (n - 87)
      else None)"

text \<open>
  The bytes that the serializer leaves as they are: ASCII letters and digits and
  \<open>* - . _\<close>. A space becomes \<open>+\<close>; every other byte becomes \<open>%\<close> and two upper-case
  hexadecimal digits.
\<close>

definition urlencoded_safe :: "char \<Rightarrow> bool" where
  "urlencoded_safe c =
     (let n = (of_char c :: nat) in
      (48 \<le> n \<and> n \<le> 57) \<or> (65 \<le> n \<and> n \<le> 90) \<or> (97 \<le> n \<and> n \<le> 122)
      \<or> n = 42 \<or> n = 45 \<or> n = 46 \<or> n = 95)"

definition urlencoded_byte :: "char \<Rightarrow> string" where
  "urlencoded_byte c =
     (if urlencoded_safe c then [c]
      else if c = CHR '' '' then ''+''
      else [CHR ''%'', hex_digit ((of_char c :: nat) div 16), hex_digit ((of_char c :: nat) mod 16)])"

definition urlencoded_encode :: "string \<Rightarrow> string" where
  "urlencoded_encode s = concat (map urlencoded_byte s)"

text \<open>
  Percent-decoding: \<open>%\<close> followed by two hexadecimal digits is one byte; a \<open>%\<close> that is
  not followed by two hexadecimal digits stays.
\<close>

fun percent_decode :: "string \<Rightarrow> string" where
  "percent_decode [] = []"
| "percent_decode (c # cs) =
     (if c = CHR ''%'' then
        (case cs of
           h # l # rest \<Rightarrow>
             (case (hex_value h, hex_value l) of
                (Some a, Some b) \<Rightarrow> char_of (a * 16 + b) # percent_decode rest
              | _ \<Rightarrow> c # percent_decode cs)
         | _ \<Rightarrow> c # percent_decode cs)
      else c # percent_decode cs)"

definition urlencoded_decode :: "string \<Rightarrow> string" where
  "urlencoded_decode s = percent_decode (map (\<lambda>c. if c = CHR ''+'' then CHR '' '' else c) s)"

fun split_on :: "char \<Rightarrow> string \<Rightarrow> string list" where
  "split_on sep [] = [[]]"
| "split_on sep (c # cs) =
     (if c = sep then [] # split_on sep cs
      else (case split_on sep cs of
              w # ws \<Rightarrow> (c # w) # ws
            | [] \<Rightarrow> [[c]]))"

definition parse_pair :: "string \<Rightarrow> string \<times> string" where
  "parse_pair bytes =
     (urlencoded_decode (takeWhile (\<lambda>c. c \<noteq> CHR ''='') bytes),
      urlencoded_decode (drop 1 (dropWhile (\<lambda>c. c \<noteq> CHR ''='') bytes)))"

text \<open>The parser: split at \<open>&\<close>, skip empty pieces, split each piece at its first \<open>=\<close>.\<close>

definition urlencoded_parse :: "string \<Rightarrow> (string \<times> string) list" where
  "urlencoded_parse q = map parse_pair (filter (\<lambda>b. b \<noteq> []) (split_on CHR ''&'' q))"

fun join_amp :: "string list \<Rightarrow> string" where
  "join_amp [] = []"
| "join_amp [x] = x"
| "join_amp (x # y # ys) = x @ ''&'' @ join_amp (y # ys)"

definition serialize_pair :: "string \<times> string \<Rightarrow> string" where
  "serialize_pair p = urlencoded_encode (fst p) @ ''='' @ urlencoded_encode (snd p)"

definition urlencoded_serialize :: "(string \<times> string) list \<Rightarrow> string" where
  "urlencoded_serialize ps = join_amp (map serialize_pair ps)"

subsection \<open>URL objects\<close>

text \<open>
  A \<open>URL\<close> object, as far as the component uses it: everything before the query (scheme,
  host, port and path), the list behind \<open>searchParams\<close>, and the fragment.
  The strings given to \<open>new URL\<close> here are \<open>window.location.href\<close>, possibly with one
  \<open>?\<close> turned into \<open>&\<close>, and \<open>origin + pathname\<close>: serialized http(s) URLs, which the
  parser takes apart at the first \<open>?\<close> and the first \<open>#\<close>.
\<close>

record url =
  url_base :: string
  searchParams :: "(string \<times> string) list"
  url_fragment :: "string option"

definition before_query :: "string \<Rightarrow> string" where
  "before_query s = takeWhile (\<lambda>c. c \<noteq> CHR ''?'' \<and> c \<noteq> CHR ''#'') s"

definition URL_new :: "string \<Rightarrow> url" where
  "URL_new s =
     (case dropWhile (\<lambda>c. c \<noteq> CHR ''?'' \<and> c \<noteq> CHR ''#'') s of
        [] \<Rightarrow> \<lparr>url_base = before_query s, searchParams = [], url_fragment = None\<rparr>
      | c # r \<Rightarrow>
          (if c = CHR ''#''
           then \<lparr>url_base = before_query s, searchParams = [], url_fragment = Some r\<rparr>
           else \<lparr>url_base = before_query s,
                 searchParams = urlencoded_parse (takeWhile (\<lambda>c. c \<noteq> CHR ''#'') r),
                 url_fragment =
                   (case dropWhile (\<lambda>c. c \<noteq> CHR ''#'') r of
                      [] \<Rightarrow> None
                    | _ # f \<Rightarrow> Some f)\<rparr>))"

text \<open>\<open>url.searchParams.get(name)\<close>: the value of the first pair with that name, or \<open>null\<close>.\<close>

definition searchParams_get :: "string \<Rightarrow> url \<Rightarrow> string option" where
  "searchParams_get name u = map_of (searchParams u) name"

definition searchParams_append :: "string \<Rightarrow> string \<Rightarrow> url \<Rightarrow> url" where
  "searchParams_append name v u = u\<lparr>searchParams := searchParams u @ [(name, v)]\<rparr>"

definition searchParams_delete :: "string \<Rightarrow> url \<Rightarrow> url" where
  "searchParams_delete name u = u\<lparr>searchParams := filter (\<lambda>p. fst p \<noteq> name) (searchParams u)\<rparr>"

text \<open>
  \<open>url.toString()\<close> after \<open>searchParams\<close> has been changed by \<open>append\<close> or \<open>delete\<close>: each
  of them sets the query of the URL to the serialized list, and to no query at all when
  the list is empty.
\<close>

definition URL_toString :: "url \<Rightarrow> string" where
  "URL_toString u =
     url_base u
     @ (if searchParams u = [] then [] else ''?'' @ urlencoded_serialize (searchParams u))
     @ (case url_fragment u of None \<Rightarrow> [] | Some f \<Rightarrow> ''#'' @ f)"

section \<open>The email verification page (components/Pages/EmailVerification/index.tsx)\<close>

text \<open>
  What the component does to the outside is recorded in order as a list of effects: calls
  of \<open>log\<close> and \<open>console.error\<close>, \<open>setRoute\<close>, the two SDK calls,
  \<open>localStorage.removeItem\<close> and \<open>window.history.replaceState\<close>. The SDK calls return
  promises; a promise is fulfilled, rejected with an error, or never settled.
\<close>

datatype 'e log_arg = Str string | Err 'e

datatype 'e effect =
    ContextLog "'e log_arg list"
  | ConsoleError string
  | SetRoute string
  | SdkRequestEmailVerification string string
  | SdkVerifyEmail string string
  | LocalStorageRemoveItem string
  | HistoryReplaceState string

datatype 'e promise = Fulfilled | Rejected 'e | Pending

record 'e auth_client =
  requestEmailVerification :: "string \<Rightarrow> string \<Rightarrow> 'e promise"
  verifyEmail :: "string \<Rightarrow> string \<Rightarrow> 'e promise"

record VerificationResponse =
  success :: bool
  error :: "string option"

text \<open>
  The state: the browser's \<open>window.location.href\<close> and \<open>localStorage\<close>, the route of the
  Openfort context, the component's own state (\<open>useState\<close>, \<open>useMemo\<close>), and the effects
  so far. \<open>shouldSendEmailVerification\<close> is \<open>false\<close> or a string; \<open>None\<close> is \<open>false\<close>.
\<close>

record 'e page =
  href :: string
  localStorage :: "string \<rightharpoonup> string"
  route :: string
  loading :: bool
  shouldSendEmailVerification :: "string option"
  emailInStorage :: "string option"
  verificationResponse :: "VerificationResponse option"
  effects :: "'e effect list"

definition EMAIL_LOGIN :: string where
  "EMAIL_LOGIN = ''emailLogin''"

definition EMAIL_VERIFICATION :: string where
  "EMAIL_VERIFICATION = ''emailVerification''"

definition do_effect :: "'e effect \<Rightarrow> 'e page \<Rightarrow> 'e page" where
  "do_effect x st = st\<lparr>effects := effects st @ [x]\<rparr>"

definition setRoute :: "string \<Rightarrow> 'e page \<Rightarrow> 'e page" where
  "setRoute r st = do_effect (SetRoute r) (st\<lparr>route := r\<rparr>)"

text \<open>
  The first render, on the route of this page: the initial values of the state hooks and
  the read of local storage under the key \<open>emailToVerifyLocalStorageKey\<close>, a constant of
  \<open>constants/openfort\<close> that is a parameter here.
\<close>

definition first_render :: "string \<Rightarrow> string \<Rightarrow> (string \<rightharpoonup> string) \<Rightarrow> 'e page" where
  "first_render emailToVerifyLocalStorageKey location_href storage =
     \<lparr>href = location_href, localStorage = storage, route = EMAIL_VERIFICATION,
      loading = True, shouldSendEmailVerification = None,
      emailInStorage = storage emailToVerifyLocalStorageKey,
      verificationResponse = None, effects = []\<rparr>"

text \<open>\<open>window.location.origin + window.location.pathname\<close> is the URL up to its query.\<close>

definition redirectUrl_for :: "string \<Rightarrow> string \<Rightarrow> string" where
  "redirectUrl_for location_href email =
     URL_toString
       (searchParams_append ''email'' email
         (searchParams_append ''openfortEmailVerificationUI'' ''true''
           (URL_new (before_query location_href))))"

definition sendEmailVerification :: "'e auth_client \<Rightarrow> string \<Rightarrow> 'e page \<Rightarrow> 'e page" where
  "sendEmailVerification client email st =
     (if email = [] then do_effect (ContextLog [Str ''No linked account found'']) st
      else
        (let redirectUrl = redirectUrl_for (href st) email;
             st1 = do_effect (SdkRequestEmailVerification email redirectUrl) st
         in case requestEmailVerification client email redirectUrl of
              Rejected e \<Rightarrow>
                do_effect (ContextLog [Str ''Error requesting email verification'', Err e]) st1
            | _ \<Rightarrow> st1))"

text \<open>The effect that depends on \<open>shouldSendEmailVerification\<close>.\<close>

definition send_effect :: "'e auth_client \<Rightarrow> 'e page \<Rightarrow> 'e page" where
  "send_effect client st =
     (case shouldSendEmailVerification st of
        Some email \<Rightarrow> (if email \<noteq> [] then sendEmailVerification client email st else st)
      | None \<Rightarrow> st)"

definition fixedUrl :: "string \<Rightarrow> string" where
  "fixedUrl location_href = String_replace ''?state='' ''&state='' location_href"

text \<open>
  \<open>removeParams\<close>: the three keys are deleted from \<open>url.searchParams\<close> one after the
  other, and the URL that is left replaces the current history entry.
\<close>

definition strip_params :: "url \<Rightarrow> url" where
  "strip_params u =
     fold searchParams_delete [''state'', ''openfortEmailVerificationUI'', ''email''] u"

definition removeParams :: "url \<Rightarrow> 'e page \<Rightarrow> 'e page" where
  "removeParams u st =
     (let s = URL_toString (strip_params u)
      in do_effect (HistoryReplaceState s) (st\<lparr>href := s\<rparr>))"

definition verification_failed_message :: string where
  "verification_failed_message = ''There was an error verifying your email. Please try again.''"

text \<open>
  The asynchronous block of the second effect: the call, then, when the promise settles,
  the \<open>try\<close> or the \<open>catch\<close> branch and the \<open>finally\<close> block. When the promise never
  settles, nothing follows the call.
\<close>

definition verify_block :: "'e auth_client \<Rightarrow> url \<Rightarrow> string \<Rightarrow> string \<Rightarrow> 'e page \<Rightarrow> 'e page" where
  "verify_block client u email state st =
     (let st1 = do_effect (SdkVerifyEmail email state) st
      in case verifyEmail client email state of
           Fulfilled \<Rightarrow>
             (removeParams u
                (st1\<lparr>verificationResponse := Some \<lparr>success = True, error = None\<rparr>\<rparr>))
               \<lparr>loading := False\<rparr>
         | Rejected e \<Rightarrow>
             (removeParams u
                (do_effect (ContextLog [Str ''Error verifying email'', Err e])
                   (st1\<lparr>verificationResponse :=
                          Some \<lparr>success = False, error = Some verification_failed_message\<rparr>\<rparr>)))
               \<lparr>loading := False\<rparr>
         | Pending \<Rightarrow> st1)"

text \<open>The effect that runs once, when the component is mounted.\<close>

definition mount_effect :: "'e auth_client \<Rightarrow> string \<Rightarrow> 'e page \<Rightarrow> 'e page" where
  "mount_effect client emailToVerifyLocalStorageKey st =
     (let u = URL_new (fixedUrl (href st));
          openfortEmailVerificationUI = searchParams_get ''openfortEmailVerificationUI'' u
      in if \<not> truthy openfortEmailVerificationUI then
           (if \<not> truthy (emailInStorage st) then setRoute EMAIL_LOGIN st
            else
              (do_effect (LocalStorageRemoveItem emailToVerifyLocalStorageKey)
                 (st\<lparr>shouldSendEmailVerification := emailInStorage st,
                     localStorage := (localStorage st)(emailToVerifyLocalStorageKey := None)\<rparr>))
                \<lparr>loading := False\<rparr>)
         else
           (let state = searchParams_get ''state'' u;
                email = searchParams_get ''email'' u
            in case state of
                 None \<Rightarrow> do_effect (ConsoleError ''No state found in URL'') st
               | Some state_v \<Rightarrow>
                   (if state_v = [] then do_effect (ConsoleError ''No state found in URL'') st
                    else
                      (case email of
                         None \<Rightarrow> setRoute EMAIL_LOGIN st
                       | Some email_v \<Rightarrow>
                           (if email_v = [] then setRoute EMAIL_LOGIN st
                            else
                              verify_block client u email_v state_v
                                (do_effect
                                   (ContextLog [Str ''EmailVerification'', Str state_v, Str email_v])
                                   st))))))"

text \<open>
  Mounting the component: the first render, then the two effects in the order of their
  declaration (with \<open>shouldSendEmailVerification\<close> still \<open>false\<close> the first one does
  nothing). The state setters called in the second effect take effect with the next
  render, after that effect has returned; when \<open>shouldSendEmailVerification\<close> has
  changed, the first effect runs again after that render.
\<close>

definition mount ::
  "'e auth_client \<Rightarrow> string \<Rightarrow> string \<Rightarrow> (string \<rightharpoonup> string) \<Rightarrow> 'e page" where
  "mount client emailToVerifyLocalStorageKey location_href storage =
     (let st0 = first_render emailToVerifyLocalStorageKey location_href storage;
          st1 = send_effect client st0;
          st2 = mount_effect client emailToVerifyLocalStorageKey st1
      in if shouldSendEmailVerification st2 \<noteq> shouldSendEmailVerification st1
         then send_effect client st2 else st2)"

text \<open>
  What the component shows: the loader while \<open>loading\<close> (the state CHECKING of the flow),
  the result of the verification when there is one (DONE), and otherwise the
  "Email sent" notice with the address read from local storage (AWAITING_USER_CHECK).
\<close>

datatype view = CHECKING | DONE VerificationResponse | AWAITING_USER_CHECK "string option"

definition render :: "'e page \<Rightarrow> view" where
  "render st =
     (if loading st then CHECKING
      else (case verificationResponse st of
              Some r \<Rightarrow> DONE r
            | None \<Rightarrow> AWAITING_USER_CHECK (emailInStorage st)))"

text \<open>Whether \<open>a\<close> occurs in a list and \<open>b\<close> occurs somewhere after its first occurrence.\<close>

definition occurs_before :: "'a \<Rightarrow> 'a \<Rightarrow> 'a list \<Rightarrow> bool" where
  "occurs_before a b xs = (b \<in> set (drop 1 (dropWhile (\<lambda>x. x \<noteq> a) xs)))"

text \<open>Two clients for concrete runs: one whose calls all succeed, one whose calls all fail.\<close>

definition fulfilling_client :: "string auth_client" where
  "fulfilling_client =
     \<lparr>requestEmailVerification = (\<lambda>email redirectUrl. Fulfilled),
      verifyEmail = (\<lambda>email state. Fulfilled)\<rparr>"

definition rejecting_client :: "string auth_client" where
  "rejecting_client =
     \<lparr>requestEmailVerification = (\<lambda>email redirectUrl. Rejected ''request failed''),
      verifyEmail = (\<lambda>email state. Rejected ''invalid state'')\<rparr>"

section \<open>Properties of the client registry\<close>

lemma getDefaultClient_set:
  "defaultClient st = Some c \<Longrightarrow> getDefaultClient opt st = (Inr c, st)"
  by (simp add: getDefaultClient_def split: option.splits)

lemma getDefaultClient_unset_config:
  "defaultClient st = None \<Longrightarrow>
   getDefaultClient (Some cfg) st =
     (Inr \<lparr>ident = constructed st, config = cfg\<rparr>,
      st\<lparr>constructed := Suc (constructed st),
         defaultClient := Some \<lparr>ident = constructed st, config = cfg\<rparr>\<rparr>)"
  by (simp add: getDefaultClient_def new_OpenfortClient_def)

lemma getDefaultClient_unset_no_config:
  "defaultClient st = None \<Longrightarrow>
   getDefaultClient None st = (Inl (Error not_initialized_message), st)"
  by (simp add: getDefaultClient_def)

lemma getDefaultClient_success_stored:
  "getDefaultClient opt st = (Inr c, st') \<Longrightarrow> defaultClient st' = Some c"
  by (cases "defaultClient st"; cases opt)
     (auto simp: getDefaultClient_def new_OpenfortClient_def)

lemma createOpenfortClient_keeps_default:
  "defaultClient (snd (createOpenfortClient cfg st)) = defaultClient st"
  by (simp add: createOpenfortClient_def new_OpenfortClient_def)

lemma run_calls_no_set:
  "defaultClient st = Some c \<Longrightarrow> \<not> list_ex is_CallSet cs \<Longrightarrow>
   defaultClient (snd (run_calls cs st)) = Some c \<and>
   list_all (\<lambda>r. r = Inr c) (fst (run_calls cs st))"
proof (induction cs st rule: run_calls.induct)
  case (1 st)
  then show ?case by simp
next
  case (2 cfg cs st)
  then show ?case by (simp add: createOpenfortClient_keeps_default)
next
  case (3 c' cs st)
  then show ?case by simp
next
  case (4 opt cs st)
  have g: "getDefaultClient opt st = (Inr c, st)"
    using "4.prems"(1) by (rule getDefaultClient_set)
  from "4.IH"[OF g [symmetric]] "4.prems" g show ?case
    by (cases "run_calls cs st") auto
qed

lemma run_calls_stays_set:
  "defaultClient st \<noteq> None \<Longrightarrow> defaultClient (snd (run_calls cs st)) \<noteq> None"
proof (induction cs st rule: run_calls.induct)
  case (1 st)
  then show ?case by simp
next
  case (2 cfg cs st)
  then show ?case by (simp add: createOpenfortClient_keeps_default)
next
  case (3 c' cs st)
  then show ?case by (simp add: setDefaultClient_def)
next
  case (4 opt cs st)
  from "4.prems" obtain c where c: "defaultClient st = Some c" by auto
  have g: "getDefaultClient opt st = (Inr c, st)"
    using c by (rule getDefaultClient_set)
  from "4.IH"[OF g [symmetric]] "4.prems" g show ?case
    by (cases "run_calls cs st") auto
qed

text \<open>
  Claim C1. With the shared client unset, \<open>getDefaultClient\<close> called with a configuration
  constructs exactly one new client from that configuration, stores it and returns it, and
  every later call, with any configuration or with none, returns that same client and
  leaves the module as it is. Called without a configuration while the shared client is
  unset, it throws the error whose message tells the caller to wrap the application in
  \<open>OpenfortProvider\<close>, and the shared client stays unset.
\<close>

theorem C1_getDefaultClient_get_or_init:
  assumes "defaultClient st = None"
  shows "(\<exists>c st1. getDefaultClient (Some cfg) st = (Inr c, st1)
            \<and> defaultClient st1 = Some c
            \<and> config c = cfg \<and> ident c = constructed st
            \<and> constructed st1 = Suc (constructed st)
            \<and> (\<forall>opt. getDefaultClient opt st1 = (Inr c, st1)))
       \<and> getDefaultClient None st =
           (Inl (Error ''Openfort client not initialized. Make sure to wrap your app with OpenfortProvider.''),
            st)
       \<and> defaultClient (snd (getDefaultClient None st)) = None"
proof -
  let ?c = "\<lparr>ident = constructed st, config = cfg\<rparr>"
  let ?st1 = "st\<lparr>constructed := Suc (constructed st), defaultClient := Some ?c\<rparr>"
  have a: "getDefaultClient (Some cfg) st = (Inr ?c, ?st1)"
    using assms by (rule getDefaultClient_unset_config)
  have b: "\<forall>opt. getDefaultClient opt ?st1 = (Inr ?c, ?st1)"
    by (simp add: getDefaultClient_set)
  have c: "getDefaultClient None st = (Inl (Error not_initialized_message), st)"
    using assms by (rule getDefaultClient_unset_no_config)
  from a b have "\<exists>c st1. getDefaultClient (Some cfg) st = (Inr c, st1)
            \<and> defaultClient st1 = Some c
            \<and> config c = cfg \<and> ident c = constructed st
            \<and> constructed st1 = Suc (constructed st)
            \<and> (\<forall>opt. getDefaultClient opt st1 = (Inr c, st1))"
    by simp
  with c assms show ?thesis
    by (simp add: not_initialized_message_def)
qed

theorem C1_getDefaultClient_get_or_init_witness:
  "defaultClient (initial_module_state :: nat module_state) = None
   \<and> getDefaultClient None (initial_module_state :: nat module_state) =
       (Inl (Error ''Openfort client not initialized. Make sure to wrap your app with OpenfortProvider.''),
        initial_module_state)"
  using C1_getDefaultClient_get_or_init [of "initial_module_state :: nat module_state" 7]
  by (simp add: initial_module_state_def)

text \<open>
  Claim C3. After \<open>setDefaultClient h\<close>, a call of \<open>getDefaultClient\<close> with any configuration
  (or with none) returns exactly \<open>h\<close>: the configuration is ignored, the module state is
  not changed by the call, and no client is constructed.
\<close>

theorem C3_set_then_get_returns_handle:
  "getDefaultClient opt (setDefaultClient h st) = (Inr h, setDefaultClient h st)
   \<and> constructed (snd (getDefaultClient opt (setDefaultClient h st))) = constructed st"
  by (simp add: getDefaultClient_set setDefaultClient_def)

text \<open>
  Claim C9. Once a call of \<open>getDefaultClient\<close> has returned a client \<open>c\<close>, the shared client
  is \<open>c\<close>; after any further sequence of calls of the three exported functions it is still
  set; and as long as \<open>setDefaultClient\<close> is not among them, it is still \<open>c\<close> and every
  \<open>getDefaultClient\<close> call of the sequence returned \<open>c\<close> without throwing.
  \<open>createOpenfortClient\<close> never changes the shared client, and \<open>getDefaultClient\<close> changes
  the module only when the shared client is unset.
\<close>

theorem C9_registry_invariant:
  assumes "getDefaultClient opt st = (Inr c, st')"
  shows "defaultClient st' = Some c
       \<and> (\<forall>cs. defaultClient (snd (run_calls cs st')) \<noteq> None)
       \<and> (\<forall>cs. \<not> list_ex is_CallSet cs \<longrightarrow>
              defaultClient (snd (run_calls cs st')) = Some c
              \<and> list_all (\<lambda>r. r = Inr c) (fst (run_calls cs st')))
       \<and> (\<forall>cfg s. defaultClient (snd (createOpenfortClient cfg s)) = defaultClient s)
       \<and> (\<forall>opt' s. defaultClient s \<noteq> None \<longrightarrow> snd (getDefaultClient opt' s) = s)"
proof -
  have stored: "defaultClient st' = Some c"
    using assms by (rule getDefaultClient_success_stored)
  have stays: "\<forall>cs. defaultClient (snd (run_calls cs st')) \<noteq> None"
    using stored by (simp add: run_calls_stays_set)
  have same: "\<forall>cs. \<not> list_ex is_CallSet cs \<longrightarrow>
              defaultClient (snd (run_calls cs st')) = Some c
              \<and> list_all (\<lambda>r. r = Inr c) (fst (run_calls cs st'))"
    using run_calls_no_set [OF stored] by simp
  have create: "\<forall>cfg s. defaultClient (snd (createOpenfortClient cfg s)) = defaultClient s"
    by (simp add: createOpenfortClient_keeps_default)
  have get: "\<forall>opt' s. defaultClient s \<noteq> None \<longrightarrow> snd (getDefaultClient opt' s) = s"
    by (auto simp: getDefaultClient_set)
  from stored stays same create get show ?thesis by blast
qed

theorem C9_registry_invariant_witness:
  "getDefaultClient (Some (7::nat)) initial_module_state =
     (Inr \<lparr>ident = 0, config = 7\<rparr>,
      \<lparr>defaultClient = Some \<lparr>ident = 0, config = 7\<rparr>, constructed = 1\<rparr>)
   \<and> \<not> list_ex is_CallSet [CallCreate (3::nat), CallGet None, CallGet (Some 5)]
   \<and> fst (run_calls [CallCreate (3::nat), CallGet None, CallGet (Some 5)]
            \<lparr>defaultClient = Some \<lparr>ident = 0, config = 7\<rparr>, constructed = 1\<rparr>) =
       [Inr \<lparr>ident = 0, config = 7\<rparr>, Inr \<lparr>ident = 0, config = 7\<rparr>]
   \<and> defaultClient (snd (run_calls [CallCreate (3::nat), CallGet None, CallGet (Some 5)]
            \<lparr>defaultClient = Some \<lparr>ident = 0, config = 7\<rparr>, constructed = 1\<rparr>)) =
       Some \<lparr>ident = 0, config = 7\<rparr>"
proof -
  have h: "getDefaultClient (Some (7::nat)) initial_module_state =
     (Inr \<lparr>ident = 0, config = 7\<rparr>,
      \<lparr>defaultClient = Some \<lparr>ident = 0, config = 7\<rparr>, constructed = 1\<rparr>)"
    by (simp add: getDefaultClient_def new_OpenfortClient_def initial_module_state_def)
  from C9_registry_invariant [OF h] h show ?thesis
    by (simp add: getDefaultClient_def createOpenfortClient_def new_OpenfortClient_def)
qed

section \<open>Properties of the connect hook's error handler\<close>

text \<open>
  Claim C10. For an error given to \<open>onError\<close>: when its message is exactly
  \<open>User rejected request\<close>, nothing is logged; when its message is any other non-empty
  string, one entry is logged, made of that message and the error; when its message is
  empty or absent, one entry is logged, made of the text \<open>Could not connect.\<close> and the error.
\<close>

theorem C10_onError_logging_filter:
  "(message err = Some ''User rejected request'' \<longrightarrow> onError err lg = lg)
   \<and> (\<forall>m. message err = Some m \<and> m \<noteq> [] \<and> m \<noteq> ''User rejected request'' \<longrightarrow>
          onError err lg = lg @ [(m, err)])
   \<and> (message err = None \<or> message err = Some [] \<longrightarrow>
          onError err lg = lg @ [(''Could not connect.'', err)])"
  by (auto simp: onError_def)

theorem C10_onError_logging_filter_witness:
  "onError \<lparr>message = Some ''User rejected request'', detail = ()\<rparr> [] = []
   \<and> onError \<lparr>message = Some ''Connector not found'', detail = ()\<rparr> [] =
       [(''Connector not found'', \<lparr>message = Some ''Connector not found'', detail = ()\<rparr>)]
   \<and> onError \<lparr>message = None, detail = ()\<rparr> [] =
       [(''Could not connect.'', \<lparr>message = None, detail = ()\<rparr>)]
   \<and> onError \<lparr>message = Some [], detail = ()\<rparr> [] =
       [(''Could not connect.'', \<lparr>message = Some [], detail = ()\<rparr>)]"
  using C10_onError_logging_filter [of "\<lparr>message = Some ''User rejected request'', detail = ()\<rparr>" "[]"]
        C10_onError_logging_filter [of "\<lparr>message = Some ''Connector not found'', detail = ()\<rparr>" "[]"]
        C10_onError_logging_filter [of "\<lparr>message = None, detail = ()\<rparr>" "[]"]
        C10_onError_logging_filter [of "\<lparr>message = Some [], detail = ()\<rparr>" "[]"]
  by simp

section \<open>Properties of the default transports\<close>

lemma createTransport_by_id:
  "chain_id c = chain_id c' \<Longrightarrow> createTransport cfgs c p k = createTransport cfgs c' p k"
  by (simp add: createTransport_def)

lemma chain_urls_by_id:
  "chain_id c = chain_id c' \<Longrightarrow>
   chain_urls cfgs aid iid c = chain_urls cfgs aid iid c'"
  by (simp add: chain_urls_def push_provider_def createTransport_by_id [of c c']
           split: option.splits)

lemma assign_transports_keeps:
  "m (chain_id c) = Some (Fallback (chain_urls cfgs aid iid c)) \<Longrightarrow>
   assign_transports cfgs aid iid chs m (chain_id c) =
     Some (Fallback (chain_urls cfgs aid iid c))"
proof (induction chs arbitrary: m)
  case Nil
  then show ?case by simp
next
  case (Cons ch chs)
  show ?case
  proof (cases "chain_id ch = chain_id c")
    case True
    then have "chain_urls cfgs aid iid ch = chain_urls cfgs aid iid c"
      by (rule chain_urls_by_id)
    with True show ?thesis by (simp add: Cons.IH)
  next
    case False
    with Cons.prems show ?thesis by (simp add: Cons.IH)
  qed
qed

lemma assign_transports_member:
  "c \<in> set chs \<Longrightarrow>
   assign_transports cfgs aid iid chs m (chain_id c) =
     Some (Fallback (chain_urls cfgs aid iid c))"
proof (induction chs arbitrary: m)
  case Nil
  then show ?case by simp
next
  case (Cons ch chs)
  show ?case
  proof (cases "c \<in> set chs")
    case True
    then show ?thesis by (simp add: Cons.IH)
  next
    case False
    with Cons.prems have "ch = c" by simp
    then show ?thesis by (simp add: assign_transports_keeps)
  qed
qed

text \<open>
  The list of every chain of the input: the transport for Alchemy when the Alchemy key is a
  non-empty string, then the transport for Infura when the Infura key is a non-empty
  string, then \<open>http()\<close>.
\<close>

lemma getDefaultTransports_lookup:
  assumes "c \<in> set (case chains_arg of None \<Rightarrow> default_chains | Some chs \<Rightarrow> chs)"
  shows "getDefaultTransports cfgs chains_arg aid iid (chain_id c) =
           Some (Fallback (push_provider cfgs c ProviderAlchemy aid
                           @ push_provider cfgs c ProviderInfura iid
                           @ [Http None]))"
  unfolding getDefaultTransports_def chain_urls_def [symmetric]
  using assms by (rule assign_transports_member)

lemma push_provider_without_key: "\<not> truthy key \<Longrightarrow> push_provider cfgs c p key = []"
  by (cases key) (simp_all add: push_provider_def)

lemma push_provider_with_key:
  "k \<noteq> [] \<Longrightarrow> push_provider cfgs c p (Some k) = [createTransport cfgs c p k]"
  by (simp add: push_provider_def)

text \<open>
  What \<open>createTransport\<close> builds, case by case. A chain that the table does not list, or
  lists without \<open>rpcUrls\<close>, gets \<open>http()\<close>. For a listed chain with \<open>rpcUrls\<close>, the
  transport of a provider is \<open>http\<close> of that provider's \<open>http\<close> URL of the table followed by
  the key when that URL is a non-empty string, and otherwise \<open>webSocket\<close> of that provider's
  \<open>webSocket\<close> URL followed by the key.
\<close>

lemma createTransport_absent:
  "find (\<lambda>x. config_id x = chain_id c) cfgs = None \<Longrightarrow>
   createTransport cfgs c p k = Http None"
  by (simp add: createTransport_def)

lemma createTransport_no_rpcUrls:
  "find (\<lambda>x. config_id x = chain_id c) cfgs = Some sc \<Longrightarrow> rpcUrls sc = None \<Longrightarrow>
   createTransport cfgs c p k = Http None"
  by (simp add: createTransport_def)

lemma createTransport_alchemy_http:
  "find (\<lambda>x. config_id x = chain_id c) cfgs = Some sc \<Longrightarrow> rpcUrls sc = Some urls \<Longrightarrow>
   alchemy urls = Some e \<Longrightarrow> http e = Some u \<Longrightarrow> u \<noteq> [] \<Longrightarrow>
   createTransport cfgs c ProviderAlchemy k = Http (Some (u @ k))"
  by (simp add: createTransport_def provider_transport_def)

lemma createTransport_alchemy_webSocket:
  "find (\<lambda>x. config_id x = chain_id c) cfgs = Some sc \<Longrightarrow> rpcUrls sc = Some urls \<Longrightarrow>
   alchemy urls = Some e \<Longrightarrow> \<not> truthy (http e) \<Longrightarrow> webSocket e = Some w \<Longrightarrow>
   createTransport cfgs c ProviderAlchemy k = WebSocket (Some (w @ k))"
  by (simp add: createTransport_def provider_transport_def)

lemma createTransport_infura_http:
  "find (\<lambda>x. config_id x = chain_id c) cfgs = Some sc \<Longrightarrow> rpcUrls sc = Some urls \<Longrightarrow>
   infura urls = Some e \<Longrightarrow> http e = Some u \<Longrightarrow> u \<noteq> [] \<Longrightarrow>
   createTransport cfgs c ProviderInfura k = Http (Some (u @ k))"
  by (simp add: createTransport_def provider_transport_def)

lemma createTransport_infura_webSocket:
  "find (\<lambda>x. config_id x = chain_id c) cfgs = Some sc \<Longrightarrow> rpcUrls sc = Some urls \<Longrightarrow>
   infura urls = Some e \<Longrightarrow> \<not> truthy (http e) \<Longrightarrow> webSocket e = Some w \<Longrightarrow>
   createTransport cfgs c ProviderInfura k = WebSocket (Some (w @ k))"
  by (simp add: createTransport_def provider_transport_def)

text \<open>
  The case that is left: the chain is listed with \<open>rpcUrls\<close>, and these have no entry for
  the provider. Then \<open>?.http\<close> and \<open>?.webSocket\<close> are both \<open>undefined\<close>, and the transport
  is \<open>webSocket\<close> of the text \<open>undefined\<close> followed by the key.
\<close>

lemma createTransport_alchemy_missing:
  "find (\<lambda>x. config_id x = chain_id c) cfgs = Some sc \<Longrightarrow> rpcUrls sc = Some urls \<Longrightarrow>
   alchemy urls = None \<Longrightarrow>
   createTransport cfgs c ProviderAlchemy k = WebSocket (Some (''undefined'' @ k))"
  by (simp add: createTransport_def provider_transport_def)

lemma createTransport_infura_missing:
  "find (\<lambda>x. config_id x = chain_id c) cfgs = Some sc \<Longrightarrow> rpcUrls sc = Some urls \<Longrightarrow>
   infura urls = None \<Longrightarrow>
   createTransport cfgs c ProviderInfura k = WebSocket (Some (''undefined'' @ k))"
  by (simp add: createTransport_def provider_transport_def)

text \<open>
  A chain that the table does not list, or lists without \<open>rpcUrls\<close>, is given public
  transports only: \<open>http()\<close> once for each key that is a non-empty string, and once more at
  the end.
\<close>

lemma public_only_when_unlisted:
  assumes "c \<in> set (case chains_arg of None \<Rightarrow> default_chains | Some chs \<Rightarrow> chs)"
    and "find (\<lambda>x. config_id x = chain_id c) cfgs = None
         \<or> (\<exists>sc. find (\<lambda>x. config_id x = chain_id c) cfgs = Some sc \<and> rpcUrls sc = None)"
  shows "getDefaultTransports cfgs chains_arg aid iid (chain_id c) =
           Some (Fallback (replicate
             ((if truthy aid then 1 else 0) + (if truthy iid then 1 else 0) + 1) (Http None)))"
proof -
  have pub: "\<And>p k. createTransport cfgs c p k = Http None"
    using assms(2) by (auto simp: createTransport_absent createTransport_no_rpcUrls)
  have a: "\<And>p key. push_provider cfgs c p key = replicate (if truthy key then 1 else 0) (Http None)"
  proof -
    fix p key
    show "push_provider cfgs c p key = replicate (if truthy key then 1 else 0) (Http None)"
      by (cases key) (simp_all add: push_provider_def pub)
  qed
  show ?thesis
    unfolding getDefaultTransports_lookup [OF assms(1)] a
    by (simp add: replicate_add [symmetric] del: replicate_add)
qed

text \<open>
  Claim C8 says that the list of every chain begins with the authenticated provider
  transports, Alchemy before Infura, and ends with the public transport. The code does
  this where the table has a URL for the provider, and gives public transports only
  where the chain is not listed. It does not where a chain is listed with \<open>rpcUrls\<close> that
  have no entry for a provider whose key is supplied: for the chain 1 listed with an
  Alchemy URL only, and both keys, the list is the Alchemy transport built from the
  table's URL, then \<open>webSocket('undefinedIK')\<close>, which is built from no URL of the table,
  then \<open>http()\<close>.
\<close>

theorem C8_missing_provider_entry_gives_undefined_url:
  "getDefaultTransports
     [\<lparr>config_id = 1,
       rpcUrls = Some \<lparr>alchemy = Some \<lparr>http = Some ''https://eth-mainnet.g.alchemy.com/v2/'',
                                        webSocket = None\<rparr>,
                       infura = None\<rparr>\<rparr>]
     (Some [\<lparr>chain_id = 1\<rparr>]) (Some ''AK'') (Some ''IK'') 1 =
   Some (Fallback [Http (Some ''https://eth-mainnet.g.alchemy.com/v2/AK''),
                   WebSocket (Some ''undefinedIK''),
                   Http None])"
  by (simp add: getDefaultTransports_def chain_urls_def push_provider_def createTransport_def
        provider_transport_def)

section \<open>Properties of the URL model\<close>


lemma of_char_hex_digit:
  "n < 16 \<Longrightarrow> (of_char (hex_digit n) :: nat) = (if n < 10 then 48 + n else 55 + n)"
  by (simp add: hex_digit_def)

lemma hex_value_hex_digit: "n < 16 \<Longrightarrow> hex_value (hex_digit n) = Some n"
  by (simp add: hex_value_def of_char_hex_digit Let_def)

lemma hex_digit_safe: "n < 16 \<Longrightarrow> urlencoded_safe (hex_digit n)"
  by (simp add: urlencoded_safe_def of_char_hex_digit Let_def)

lemma safe_not_special:
  "urlencoded_safe c \<Longrightarrow>
   c \<noteq> CHR ''%'' \<and> c \<noteq> CHR ''+'' \<and> c \<noteq> CHR ''&'' \<and> c \<noteq> CHR ''=''
   \<and> c \<noteq> CHR ''#'' \<and> c \<noteq> CHR ''?''"
  by (auto simp: urlencoded_safe_def)

lemma of_char_div_16: "(of_char (c::char) :: nat) div 16 < 16"
proof -
  have "(of_char c :: nat) < 256" by simp
  then show ?thesis by arith
qed

lemma char_of_nibbles: "char_of ((of_char c :: nat) div 16 * 16 + (of_char c :: nat) mod 16) = c"
  by simp

lemma decode_byte:
  "percent_decode (map (\<lambda>c. if c = CHR ''+'' then CHR '' '' else c) (urlencoded_byte c @ rest)) =
   c # percent_decode (map (\<lambda>c. if c = CHR ''+'' then CHR '' '' else c) rest)"
proof (cases "urlencoded_safe c")
  case True
  with safe_not_special [of c] show ?thesis
    by (simp add: urlencoded_byte_def)
next
  case False
  show ?thesis
  proof (cases "c = CHR '' ''")
    case True
    with False show ?thesis by (simp add: urlencoded_byte_def)
  next
    case ns: False
    let ?h = "hex_digit ((of_char c :: nat) div 16)"
    let ?l = "hex_digit ((of_char c :: nat) mod 16)"
    have h: "hex_value ?h = Some ((of_char c :: nat) div 16)"
      by (rule hex_value_hex_digit) (rule of_char_div_16)
    have l: "hex_value ?l = Some ((of_char c :: nat) mod 16)"
      by (rule hex_value_hex_digit) simp
    have hp: "?h \<noteq> CHR ''+''"
      using safe_not_special [OF hex_digit_safe [OF of_char_div_16 [of c]]] by simp
    have lp: "?l \<noteq> CHR ''+''"
      using safe_not_special [OF hex_digit_safe [of "(of_char c :: nat) mod 16"]] by simp
    from False ns h l hp lp show ?thesis
      by (simp add: urlencoded_byte_def char_of_nibbles)
  qed
qed

lemma decode_encode: "urlencoded_decode (urlencoded_encode s) = s"
proof (induction s)
  case Nil
  then show ?case by (simp add: urlencoded_decode_def urlencoded_encode_def)
next
  case (Cons c s)
  then show ?case
    using decode_byte [of c "urlencoded_encode s"]
    by (simp add: urlencoded_decode_def urlencoded_encode_def)
qed

lemma encoded_byte_chars:
  "x \<in> set (urlencoded_byte c) \<Longrightarrow> urlencoded_safe x \<or> x = CHR ''+'' \<or> x = CHR ''%''"
  using hex_digit_safe [OF of_char_div_16 [of c]] hex_digit_safe [of "(of_char c :: nat) mod 16"]
  by (auto simp: urlencoded_byte_def split: if_splits)

lemma encoded_chars:
  "x \<in> set (urlencoded_encode s) \<Longrightarrow> urlencoded_safe x \<or> x = CHR ''+'' \<or> x = CHR ''%''"
  by (auto simp: urlencoded_encode_def dest: encoded_byte_chars)

lemma encoded_no_separators:
  "CHR ''&'' \<notin> set (urlencoded_encode s) \<and> CHR ''='' \<notin> set (urlencoded_encode s)
   \<and> CHR ''#'' \<notin> set (urlencoded_encode s) \<and> CHR ''?'' \<notin> set (urlencoded_encode s)"
  using encoded_chars [of _ s] safe_not_special by fastforce

lemma split_on_absent: "sep \<notin> set x \<Longrightarrow> split_on sep x = [x]"
  by (induction x) auto

lemma split_on_append:
  "sep \<notin> set x \<Longrightarrow> split_on sep (x @ sep # y) = x # split_on sep y"
  by (induction x) auto

lemma split_on_join_amp:
  "xs \<noteq> [] \<Longrightarrow> \<forall>x\<in>set xs. CHR ''&'' \<notin> set x \<Longrightarrow> split_on CHR ''&'' (join_amp xs) = xs"
proof (induction xs rule: join_amp.induct)
  case 1
  then show ?case by simp
next
  case (2 x)
  then show ?case by (simp add: split_on_absent)
next
  case (3 x y ys)
  then show ?case by (simp add: split_on_append)
qed

lemma serialize_pair_no_amp: "CHR ''&'' \<notin> set (serialize_pair p)"
  using encoded_no_separators [of "fst p"] encoded_no_separators [of "snd p"]
  by (simp add: serialize_pair_def)

lemma serialize_pair_nonempty: "serialize_pair p \<noteq> []"
  by (simp add: serialize_pair_def)

lemma parse_serialize_pair: "parse_pair (serialize_pair p) = p"
proof -
  have ne: "\<forall>c\<in>set (urlencoded_encode (fst p)). c \<noteq> CHR ''=''"
    using encoded_no_separators [of "fst p"] by auto
  have t: "takeWhile (\<lambda>c. c \<noteq> CHR ''='') (urlencoded_encode (fst p) @ CHR ''='' # urlencoded_encode (snd p))
            = urlencoded_encode (fst p)"
    using ne by (simp add: takeWhile_append2)
  have d: "dropWhile (\<lambda>c. c \<noteq> CHR ''='') (urlencoded_encode (fst p) @ CHR ''='' # urlencoded_encode (snd p))
            = CHR ''='' # urlencoded_encode (snd p)"
    using ne by (simp add: dropWhile_append2)
  show ?thesis
    by (simp add: parse_pair_def serialize_pair_def t d decode_encode)
qed

lemma parse_serialize: "urlencoded_parse (urlencoded_serialize ps) = ps"
proof (cases "ps = []")
  case True
  then show ?thesis by (simp add: urlencoded_parse_def urlencoded_serialize_def)
next
  case False
  have s: "split_on CHR ''&'' (join_amp (map serialize_pair ps)) = map serialize_pair ps"
    using False by (intro split_on_join_amp) (auto simp: serialize_pair_no_amp)
  have f: "filter (\<lambda>b. b \<noteq> []) (map serialize_pair ps) = map serialize_pair ps"
    by (simp add: serialize_pair_nonempty)
  show ?thesis
    by (simp add: urlencoded_parse_def urlencoded_serialize_def s f parse_serialize_pair
          map_idI)
qed

lemma set_join_amp: "set (join_amp xs) \<subseteq> (\<Union>x\<in>set xs. set x) \<union> {CHR ''&''}"
  by (induction xs rule: join_amp.induct) auto

lemma serialize_pair_chars:
  "CHR ''#'' \<notin> set (serialize_pair p) \<and> CHR ''?'' \<notin> set (serialize_pair p)"
  using encoded_no_separators [of "fst p"] encoded_no_separators [of "snd p"]
  by (simp add: serialize_pair_def)

lemma serialize_chars:
  "CHR ''#'' \<notin> set (urlencoded_serialize ps) \<and> CHR ''?'' \<notin> set (urlencoded_serialize ps)"
  using set_join_amp [of "map serialize_pair ps"] serialize_pair_chars
  by (auto simp: urlencoded_serialize_def)

lemma URL_new_toString:
  assumes "CHR ''?'' \<notin> set b" and "CHR ''#'' \<notin> set b"
  shows "URL_new (URL_toString \<lparr>url_base = b, searchParams = ps, url_fragment = f\<rparr>) =
           \<lparr>url_base = b, searchParams = ps, url_fragment = f\<rparr>"
proof -
  let ?P = "\<lambda>c. c \<noteq> CHR ''?'' \<and> c \<noteq> CHR ''#''"
  define F where "F = (case f of None \<Rightarrow> [] | Some x \<Rightarrow> CHR ''#'' # x)"
  have fr: "(case F of [] \<Rightarrow> None | c # x \<Rightarrow> Some x) = f"
    by (cases f) (simp_all add: F_def)
  have all: "\<forall>c\<in>set b. ?P c" using assms by auto
  show ?thesis
  proof (cases "ps = []")
    case True
    have s: "URL_toString \<lparr>url_base = b, searchParams = ps, url_fragment = f\<rparr> = b @ F"
      using True by (cases f) (simp_all add: URL_toString_def F_def)
    show ?thesis
    proof (cases f)
      case None
      have t0: "takeWhile ?P b = b" using all by simp
      have d0: "dropWhile ?P b = []" using all by simp
      from True None show ?thesis
        by (simp add: URL_toString_def URL_new_def before_query_def t0 d0)
    next
      case (Some x)
      have t: "takeWhile ?P (b @ CHR ''#'' # x) = b"
        using all by (simp add: takeWhile_append2)
      have d: "dropWhile ?P (b @ CHR ''#'' # x) = CHR ''#'' # x"
        using all by (simp add: dropWhile_append2)
      from True Some show ?thesis
        by (simp add: URL_toString_def URL_new_def before_query_def t d)
    qed
  next
    case False
    define q where "q = urlencoded_serialize ps"
    have t: "takeWhile ?P (b @ CHR ''?'' # q @ F) = b"
      using all by (simp add: takeWhile_append2)
    have d: "dropWhile ?P (b @ CHR ''?'' # q @ F) = CHR ''?'' # q @ F"
      using all by (simp add: dropWhile_append2)
    have nh: "\<forall>c\<in>set q. c \<noteq> CHR ''#''"
      using serialize_chars [of ps] by (auto simp: q_def)
    have tq: "takeWhile (\<lambda>c. c \<noteq> CHR ''#'') (q @ F) = q"
      using nh by (cases f) (simp_all add: takeWhile_append2 F_def)
    have dq: "dropWhile (\<lambda>c. c \<noteq> CHR ''#'') (q @ F) = F"
      using nh by (cases f) (simp_all add: dropWhile_append2 F_def)
    have s: "URL_toString \<lparr>url_base = b, searchParams = ps, url_fragment = f\<rparr> =
               b @ CHR ''?'' # q @ F"
      using False by (cases f) (simp_all add: URL_toString_def F_def q_def)
    have p: "urlencoded_parse q = ps"
      by (simp add: q_def parse_serialize)
    show ?thesis
      unfolding s URL_new_def before_query_def t d
      by (simp add: tq dq fr p)
  qed
qed


section \<open>Properties of the email verification page\<close>



lemma send_effect_first_render:
  "send_effect client (first_render k h s) = first_render k h s"
  by (simp add: send_effect_def first_render_def)

lemma mount_unfold:
  "mount client k h s =
     (let st2 = mount_effect client k (first_render k h s)
      in if shouldSendEmailVerification st2 \<noteq> None then send_effect client st2 else st2)"
  by (simp add: mount_def send_effect_first_render Let_def) (simp add: first_render_def)

lemma mount_effect_no_flag_no_email:
  assumes "\<not> truthy (searchParams_get ''openfortEmailVerificationUI'' (URL_new (fixedUrl h)))"
    and "\<not> truthy (s k)"
  shows "mount_effect client k (first_render k h s) =
           (first_render k h s)\<lparr>route := EMAIL_LOGIN, effects := [SetRoute EMAIL_LOGIN]\<rparr>"
  using assms
  by (simp add: mount_effect_def first_render_def setRoute_def do_effect_def Let_def)

lemma mount_effect_no_flag_email:
  assumes "\<not> truthy (searchParams_get ''openfortEmailVerificationUI'' (URL_new (fixedUrl h)))"
    and "truthy (s k)"
  shows "mount_effect client k (first_render k h s) =
           (first_render k h s)\<lparr>shouldSendEmailVerification := s k,
              localStorage := s(k := None), loading := False,
              effects := [LocalStorageRemoveItem k]\<rparr>"
  using assms
  by (simp add: mount_effect_def first_render_def setRoute_def do_effect_def Let_def)

lemma mount_effect_flag_no_state:
  assumes "truthy (searchParams_get ''openfortEmailVerificationUI'' (URL_new (fixedUrl h)))"
    and "\<not> truthy (searchParams_get ''state'' (URL_new (fixedUrl h)))"
  shows "mount_effect client k (first_render k h s) =
           (first_render k h s)\<lparr>effects := [ConsoleError ''No state found in URL'']\<rparr>"
  using assms
  by (cases "searchParams_get ''state'' (URL_new (fixedUrl h))")
     (simp_all add: mount_effect_def first_render_def do_effect_def Let_def)

lemma mount_effect_flag_state_no_email:
  assumes "truthy (searchParams_get ''openfortEmailVerificationUI'' (URL_new (fixedUrl h)))"
    and "truthy (searchParams_get ''state'' (URL_new (fixedUrl h)))"
    and "\<not> truthy (searchParams_get ''email'' (URL_new (fixedUrl h)))"
  shows "mount_effect client k (first_render k h s) =
           (first_render k h s)\<lparr>route := EMAIL_LOGIN, effects := [SetRoute EMAIL_LOGIN]\<rparr>"
  using assms
  by (cases "searchParams_get ''state'' (URL_new (fixedUrl h))";
      cases "searchParams_get ''email'' (URL_new (fixedUrl h))")
     (simp_all add: mount_effect_def first_render_def setRoute_def do_effect_def Let_def)

lemma mount_effect_confirm:
  assumes "truthy (searchParams_get ''openfortEmailVerificationUI'' (URL_new (fixedUrl h)))"
    and "searchParams_get ''state'' (URL_new (fixedUrl h)) = Some st" and "st \<noteq> []"
    and "searchParams_get ''email'' (URL_new (fixedUrl h)) = Some em" and "em \<noteq> []"
  shows "mount_effect client k (first_render k h s) =
           verify_block client (URL_new (fixedUrl h)) em st
             ((first_render k h s)\<lparr>effects := [ContextLog [Str ''EmailVerification'', Str st, Str em]]\<rparr>)"
  using assms
  by (simp add: mount_effect_def first_render_def do_effect_def Let_def)



lemma before_query_no_marks:
  "CHR ''?'' \<notin> set (before_query h) \<and> CHR ''#'' \<notin> set (before_query h)"
  unfolding before_query_def
  by (auto dest: set_takeWhileD)

lemma URL_new_plain:
  assumes "CHR ''?'' \<notin> set b" and "CHR ''#'' \<notin> set b"
  shows "URL_new b = \<lparr>url_base = b, searchParams = [], url_fragment = None\<rparr>"
proof -
  have all: "\<forall>c\<in>set b. c \<noteq> CHR ''?'' \<and> c \<noteq> CHR ''#''"
    using assms by auto
  then have d: "dropWhile (\<lambda>c. c \<noteq> CHR ''?'' \<and> c \<noteq> CHR ''#'') b = []"
    by simp
  from all have t: "takeWhile (\<lambda>c. c \<noteq> CHR ''?'' \<and> c \<noteq> CHR ''#'') b = b"
    by simp
  show ?thesis by (simp add: URL_new_def d before_query_def t)
qed

lemma encode_flag: "urlencoded_encode ''openfortEmailVerificationUI'' = ''openfortEmailVerificationUI''"
  by (simp add: urlencoded_encode_def urlencoded_byte_def urlencoded_safe_def)

lemma encode_true: "urlencoded_encode ''true'' = ''true''"
  by (simp add: urlencoded_encode_def urlencoded_byte_def urlencoded_safe_def)

lemma encode_email: "urlencoded_encode ''email'' = ''email''"
  by (simp add: urlencoded_encode_def urlencoded_byte_def urlencoded_safe_def)

lemma redirectUrl_for_eq:
  "redirectUrl_for h e =
     before_query h @ ''?openfortEmailVerificationUI=true&email='' @ urlencoded_encode e"
  using before_query_no_marks [of h]
  by (simp add: redirectUrl_for_def URL_new_plain URL_toString_def searchParams_append_def
        urlencoded_serialize_def serialize_pair_def encode_flag encode_true encode_email)


lemma send_effect_should:
  "shouldSendEmailVerification st = Some e \<Longrightarrow> e \<noteq> [] \<Longrightarrow>
   send_effect client st =
     st\<lparr>effects := effects st
          @ [SdkRequestEmailVerification e (redirectUrl_for (href st) e)]
          @ (case requestEmailVerification client e (redirectUrl_for (href st) e) of
               Rejected x \<Rightarrow> [ContextLog [Str ''Error requesting email verification'', Err x]]
             | _ \<Rightarrow> [])\<rparr>"
  by (simp add: send_effect_def sendEmailVerification_def do_effect_def Let_def
           split: promise.splits)



lemma url_base_URL_new: "url_base (URL_new s) = before_query s"
  by (simp add: URL_new_def split: list.splits)

lemma strip_params_get:
  "searchParams_get ''state'' (strip_params u) = None
   \<and> searchParams_get ''email'' (strip_params u) = None
   \<and> searchParams_get ''openfortEmailVerificationUI'' (strip_params u) = None"
  by (auto simp: strip_params_def searchParams_get_def searchParams_delete_def map_of_eq_None_iff)

lemma URL_new_strip_params:
  "URL_new (URL_toString (strip_params (URL_new s))) = strip_params (URL_new s)"
proof -
  have ps: "strip_params (URL_new s) =
      \<lparr>url_base = before_query s, searchParams = searchParams (strip_params (URL_new s)),
       url_fragment = url_fragment (URL_new s)\<rparr>"
    using url_base_URL_new [of s]
    by (cases "URL_new s") (simp add: strip_params_def searchParams_delete_def)
  have "URL_new (URL_toString \<lparr>url_base = before_query s,
            searchParams = searchParams (strip_params (URL_new s)),
            url_fragment = url_fragment (URL_new s)\<rparr>) =
        \<lparr>url_base = before_query s, searchParams = searchParams (strip_params (URL_new s)),
         url_fragment = url_fragment (URL_new s)\<rparr>"
    using before_query_no_marks [of s] by (intro URL_new_toString) simp_all
  with ps show ?thesis by simp
qed

lemma removeParams_eq:
  "removeParams u st =
     st\<lparr>href := URL_toString (strip_params u),
        effects := effects st @ [HistoryReplaceState (URL_toString (strip_params u))]\<rparr>"
  by (simp add: removeParams_def do_effect_def Let_def)

lemma mount_confirm:
  assumes "truthy (searchParams_get ''openfortEmailVerificationUI'' (URL_new (fixedUrl h)))"
    and "searchParams_get ''state'' (URL_new (fixedUrl h)) = Some st" and "st \<noteq> []"
    and "searchParams_get ''email'' (URL_new (fixedUrl h)) = Some em" and "em \<noteq> []"
  shows "mount client k h s =
           verify_block client (URL_new (fixedUrl h)) em st
             ((first_render k h s)\<lparr>effects := [ContextLog [Str ''EmailVerification'', Str st, Str em]]\<rparr>)"
  by (simp add: mount_unfold mount_effect_confirm [OF assms] Let_def)
     (simp add: verify_block_def removeParams_eq do_effect_def first_render_def Let_def
        split: promise.splits)

lemma verify_block_fulfilled:
  "verifyEmail client em st = Fulfilled \<Longrightarrow>
   verify_block client u em st p =
     p\<lparr>verificationResponse := Some \<lparr>success = True, error = None\<rparr>,
       href := URL_toString (strip_params u),
       effects := effects p @ [SdkVerifyEmail em st, HistoryReplaceState (URL_toString (strip_params u))],
       loading := False\<rparr>"
  by (simp add: verify_block_def removeParams_eq do_effect_def Let_def)

lemma verify_block_rejected:
  "verifyEmail client em st = Rejected x \<Longrightarrow>
   verify_block client u em st p =
     p\<lparr>verificationResponse := Some \<lparr>success = False, error = Some verification_failed_message\<rparr>,
       href := URL_toString (strip_params u),
       effects := effects p @ [SdkVerifyEmail em st, ContextLog [Str ''Error verifying email'', Err x],
                    HistoryReplaceState (URL_toString (strip_params u))],
       loading := False\<rparr>"
  by (simp add: verify_block_def removeParams_eq do_effect_def Let_def)

lemma String_replace_skip:
  "c \<notin> set xs \<Longrightarrow> String_replace (c # p) rep (xs @ ys) = xs @ String_replace (c # p) rep ys"
  by (induction xs) auto

lemma String_replace_absent:
  "c \<notin> set xs \<Longrightarrow> String_replace (c # p) rep xs = xs"
  by (induction xs) auto

lemma redirectUrl_for_query_chars:
  "CHR ''?'' \<notin> set (''openfortEmailVerificationUI=true&email='' @ urlencoded_encode e)"
  using encoded_no_separators [of e] by simp

lemma fixedUrl_appended_state:
  "fixedUrl (redirectUrl_for h0 e @ ''?state='' @ tok) = redirectUrl_for h0 e @ ''&state='' @ tok"
proof -
  let ?q = "''openfortEmailVerificationUI=true&email='' @ urlencoded_encode e"
  have b: "CHR ''?'' \<notin> set (before_query h0)"
    using before_query_no_marks [of h0] by simp
  have m: "redirectUrl_for h0 e @ ''?state='' @ tok =
           before_query h0 @ (CHR ''?'' # (?q @ (''?state='' @ tok)))"
    by (simp add: redirectUrl_for_eq)
  have 1: "String_replace ''?state='' ''&state='' (before_query h0 @ (CHR ''?'' # (?q @ (''?state='' @ tok))))
         = before_query h0 @ String_replace ''?state='' ''&state='' (CHR ''?'' # (?q @ (''?state='' @ tok)))"
    using b by (rule String_replace_skip)
  have 2: "String_replace ''?state='' ''&state='' (CHR ''?'' # (?q @ (''?state='' @ tok)))
         = CHR ''?'' # String_replace ''?state='' ''&state='' (?q @ (''?state='' @ tok))"
    by simp
  have 3: "String_replace ''?state='' ''&state='' (?q @ (''?state='' @ tok))
         = ?q @ String_replace ''?state='' ''&state='' (''?state='' @ tok)"
    using redirectUrl_for_query_chars [of e] by (rule String_replace_skip)
  have 4: "String_replace ''?state='' ''&state='' (''?state='' @ tok) = ''&state='' @ tok"
    by simp
  show ?thesis
    unfolding fixedUrl_def m 1 2 3 4 by (simp add: redirectUrl_for_eq)
qed

lemma fixedUrl_wellformed:
  assumes "CHR ''?'' \<notin> set tok"
  shows "fixedUrl (redirectUrl_for h0 e @ ''&state='' @ tok) = redirectUrl_for h0 e @ ''&state='' @ tok"
proof -
  let ?q = "''openfortEmailVerificationUI=true&email='' @ urlencoded_encode e"
  have b: "CHR ''?'' \<notin> set (before_query h0)"
    using before_query_no_marks [of h0] by simp
  have r: "CHR ''?'' \<notin> set (?q @ ''&state='' @ tok)"
    using assms encoded_no_separators [of e] by simp
  have m: "redirectUrl_for h0 e @ ''&state='' @ tok =
           before_query h0 @ (CHR ''?'' # (?q @ ''&state='' @ tok))"
    by (simp add: redirectUrl_for_eq)
  have 1: "String_replace ''?state='' ''&state='' (before_query h0 @ (CHR ''?'' # (?q @ ''&state='' @ tok)))
         = before_query h0 @ String_replace ''?state='' ''&state='' (CHR ''?'' # (?q @ ''&state='' @ tok))"
    using b by (rule String_replace_skip)
  have 2: "String_replace ''?state='' ''&state='' (CHR ''?'' # (?q @ ''&state='' @ tok))
         = CHR ''?'' # String_replace ''?state='' ''&state='' (?q @ ''&state='' @ tok)"
    by simp
  have 3: "String_replace ''?state='' ''&state='' (?q @ ''&state='' @ tok) = ?q @ ''&state='' @ tok"
    using r by (rule String_replace_absent)
  show ?thesis
    unfolding fixedUrl_def m 1 2 3 ..
qed

lemma wellformed_as_URL:
  "redirectUrl_for h0 e @ ''&state='' @ urlencoded_encode t =
   URL_toString \<lparr>url_base = before_query h0,
      searchParams = [(''openfortEmailVerificationUI'', ''true''), (''email'', e), (''state'', t)],
      url_fragment = None\<rparr>"
proof -
  have s: "urlencoded_encode ''state'' = ''state''"
    by (simp add: urlencoded_encode_def urlencoded_byte_def urlencoded_safe_def)
  show ?thesis
    by (simp add: redirectUrl_for_eq URL_toString_def urlencoded_serialize_def serialize_pair_def
          encode_flag encode_true encode_email s)
qed



lemma mount_login:
  assumes "\<not> truthy (searchParams_get ''openfortEmailVerificationUI'' (URL_new (fixedUrl h)))"
    and "\<not> truthy (s k)"
  shows "mount client k h s =
           (first_render k h s)\<lparr>route := EMAIL_LOGIN, effects := [SetRoute EMAIL_LOGIN]\<rparr>"
  by (simp add: mount_unfold mount_effect_no_flag_no_email [where s = s and k = k, OF assms] Let_def)
     (simp add: first_render_def)

lemma mount_request:
  assumes "\<not> truthy (searchParams_get ''openfortEmailVerificationUI'' (URL_new (fixedUrl h)))"
    and "s k = Some e" and "e \<noteq> []"
  shows "mount client k h s =
           (first_render k h s)\<lparr>shouldSendEmailVerification := Some e,
              localStorage := s(k := None), loading := False,
              effects := [LocalStorageRemoveItem k,
                          SdkRequestEmailVerification e (redirectUrl_for h e)]
                @ (case requestEmailVerification client e (redirectUrl_for h e) of
                     Rejected x \<Rightarrow> [ContextLog [Str ''Error requesting email verification'', Err x]]
                   | _ \<Rightarrow> [])\<rparr>"
proof -
  let ?st2 = "(first_render k h s)\<lparr>shouldSendEmailVerification := s k,
              localStorage := s(k := None), loading := False,
              effects := [LocalStorageRemoveItem k]\<rparr>"
  have t: "truthy (s k)" using assms(2,3) by simp
  have me: "mount_effect client k (first_render k h s) = ?st2"
    using mount_effect_no_flag_email [where s = s and k = k, OF assms(1) t] .
  have sh: "shouldSendEmailVerification ?st2 = Some e"
    using assms(2) by simp
  have m: "mount client k h s = send_effect client ?st2"
    using assms(2) by (simp add: mount_unfold me Let_def)
  show ?thesis
    unfolding m send_effect_should [OF sh assms(3)]
    using assms(2) by (simp add: first_render_def)
qed

lemma mount_no_state:
  assumes "truthy (searchParams_get ''openfortEmailVerificationUI'' (URL_new (fixedUrl h)))"
    and "\<not> truthy (searchParams_get ''state'' (URL_new (fixedUrl h)))"
  shows "mount client k h s =
           (first_render k h s)\<lparr>effects := [ConsoleError ''No state found in URL'']\<rparr>"
  by (simp add: mount_unfold mount_effect_flag_no_state [OF assms] Let_def)
     (simp add: first_render_def)

lemma mount_no_email:
  assumes "truthy (searchParams_get ''openfortEmailVerificationUI'' (URL_new (fixedUrl h)))"
    and "truthy (searchParams_get ''state'' (URL_new (fixedUrl h)))"
    and "\<not> truthy (searchParams_get ''email'' (URL_new (fixedUrl h)))"
  shows "mount client k h s =
           (first_render k h s)\<lparr>route := EMAIL_LOGIN, effects := [SetRoute EMAIL_LOGIN]\<rparr>"
  by (simp add: mount_unfold mount_effect_flag_state_no_email [OF assms] Let_def)
     (simp add: first_render_def)

lemma verify_block_href:
  "(verify_block client u em st (p\<lparr>href := y, effects := E\<rparr>))\<lparr>href := x\<rparr> =
   (verify_block client u em st (p\<lparr>effects := E\<rparr>))\<lparr>href := x\<rparr>"
  by (cases "verifyEmail client em st")
     (simp_all add: verify_block_def removeParams_eq do_effect_def Let_def)

lemma truthy_cases:
  obtains "\<not> truthy v" | w where "v = Some w" and "w \<noteq> []"
  by (cases v) auto

lemma mount_depends_on:
  assumes f: "fixedUrl h1 = fixedUrl h2" and b: "before_query h1 = before_query h2"
  shows "(mount client k h1 s)\<lparr>href := x\<rparr> = (mount client k h2 s)\<lparr>href := x\<rparr>"
proof -
  let ?u = "URL_new (fixedUrl h2)"
  have fr: "first_render k h1 s = (first_render k h2 s)\<lparr>href := h1\<rparr>"
    by (simp add: first_render_def)
  have rd: "\<And>e. redirectUrl_for h1 e = redirectUrl_for h2 e"
    by (simp add: redirectUrl_for_eq b)
  show ?thesis
  proof (cases "truthy (searchParams_get ''openfortEmailVerificationUI'' ?u)")
    case False
    note nf = this
    show ?thesis
    proof (cases "s k" rule: truthy_cases)
      case 1
      from mount_login [of h1 s k client] mount_login [where s = s and k = k and client = client, OF nf 1] nf 1 f
      show ?thesis by (simp add: fr)
    next
      case (2 e)
      from mount_request [of h1 s k e client] mount_request [where s = s and k = k and client = client, OF nf 2] nf 2 f
      show ?thesis by (simp add: fr rd)
    qed
  next
    case True
    note fl = this
    show ?thesis
    proof (cases "searchParams_get ''state'' ?u" rule: truthy_cases)
      case 1
      from mount_no_state [of h1 client k s] mount_no_state [OF fl 1, of client k s] fl 1 f
      show ?thesis by (simp add: fr)
    next
      case (2 st)
      note st = this
      then have ts: "truthy (searchParams_get ''state'' ?u)" by simp
      show ?thesis
      proof (cases "searchParams_get ''email'' ?u" rule: truthy_cases)
        case 1
        from mount_no_email [of h1 client k s] mount_no_email [OF fl ts 1, of client k s] fl ts 1 f
        show ?thesis by (simp add: fr)
      next
        case (2 em)
        from mount_confirm [of h1 st em client k s] mount_confirm [OF fl st 2, of client k s]
             fl st 2 f
        show ?thesis by (simp add: fr verify_block_href)
      qed
    qed
  qed
qed

lemma before_query_prefix:
  "before_query (before_query h @ CHR ''?'' # r) = before_query h"
proof -
  have "\<forall>c\<in>set (before_query h). c \<noteq> CHR ''?'' \<and> c \<noteq> CHR ''#''"
    using before_query_no_marks [of h] by auto
  then show ?thesis
    unfolding before_query_def [of "before_query h @ CHR ''?'' # r"]
    by (simp add: takeWhile_append2)
qed

lemma before_query_redirectUrl_for:
  "before_query (redirectUrl_for h0 e @ r) = before_query h0"
  using before_query_prefix [of h0 "''openfortEmailVerificationUI=true&email='' @ urlencoded_encode e @ r"]
  by (simp add: redirectUrl_for_eq)

lemma URL_new_wellformed:
  "URL_new (redirectUrl_for h0 e @ ''&state='' @ urlencoded_encode t) =
   \<lparr>url_base = before_query h0,
      searchParams = [(''openfortEmailVerificationUI'', ''true''), (''email'', e), (''state'', t)],
      url_fragment = None\<rparr>"
  unfolding wellformed_as_URL
  using before_query_no_marks [of h0] by (intro URL_new_toString) simp_all

lemma parse_confirmation_url:
  "URL_new (fixedUrl
     ''https://app/callback?openfortEmailVerificationUI=true&state=XYZ&email=a%40b.com'') =
   \<lparr>url_base = ''https://app/callback'',
    searchParams = [(''openfortEmailVerificationUI'', ''true''), (''state'', ''XYZ''),
                    (''email'', ''a@b.com'')],
    url_fragment = None\<rparr>"
  by code_simp

lemma parse_missing_state:
  "URL_new (fixedUrl ''https://app/callback?openfortEmailVerificationUI=true&email=a%40b.com'') =
     \<lparr>url_base = ''https://app/callback'',
      searchParams = [(''openfortEmailVerificationUI'', ''true''), (''email'', ''a@b.com'')],
      url_fragment = None\<rparr>"
  by code_simp

lemma parse_missing_email:
  "URL_new (fixedUrl ''https://app/callback?openfortEmailVerificationUI=true&state=XYZ'') =
     \<lparr>url_base = ''https://app/callback'',
      searchParams = [(''openfortEmailVerificationUI'', ''true''), (''state'', ''XYZ'')],
      url_fragment = None\<rparr>"
  by code_simp


text \<open>
  Claim C7. When the URL the component parses carries no (non-empty) verification flag and
  local storage holds no (non-empty) pending email, mounting the component does one thing
  only: it sets the route to the login route \<open>emailLogin\<close>. No SDK call is made, and
  local storage and the URL are as before.
\<close>

theorem C7_no_flag_no_email_login:
  assumes "\<not> truthy (searchParams_get ''openfortEmailVerificationUI'' (URL_new (fixedUrl h)))"
    and "\<not> truthy (storage k)"
  shows "mount client k h storage =
           (first_render k h storage)\<lparr>route := EMAIL_LOGIN, effects := [SetRoute EMAIL_LOGIN]\<rparr>
       \<and> route (mount client k h storage) = ''emailLogin''
       \<and> effects (mount client k h storage) = [SetRoute ''emailLogin'']
       \<and> localStorage (mount client k h storage) = storage
       \<and> href (mount client k h storage) = h"
proof -
  have "mount client k h storage =
           (first_render k h storage)\<lparr>route := EMAIL_LOGIN, effects := [SetRoute EMAIL_LOGIN]\<rparr>"
    by (simp add: mount_unfold mount_effect_no_flag_no_email [where s = storage and k = k, OF assms] Let_def)
       (simp add: first_render_def)
  then show ?thesis
    by (simp add: first_render_def EMAIL_LOGIN_def)
qed

theorem C7_no_flag_no_email_login_witness:
  "\<not> truthy (searchParams_get ''openfortEmailVerificationUI''
                (URL_new (fixedUrl ''https://app/callback'')))
   \<and> \<not> truthy (Map.empty ''emailToVerify'')
   \<and> route (mount fulfilling_client ''emailToVerify'' ''https://app/callback'' Map.empty) =
       ''emailLogin''
   \<and> effects (mount fulfilling_client ''emailToVerify'' ''https://app/callback'' Map.empty) =
       [SetRoute ''emailLogin'']"
proof -
  have f: "\<not> truthy (searchParams_get ''openfortEmailVerificationUI''
                (URL_new (fixedUrl ''https://app/callback'')))"
    by (simp add: fixedUrl_def URL_new_def before_query_def searchParams_get_def)
  have e: "\<not> truthy (Map.empty ''emailToVerify'')"
    by simp
  from C7_no_flag_no_email_login
         [where h = "''https://app/callback''" and storage = Map.empty
            and k = "''emailToVerify''" and client = fulfilling_client, OF f e] f e
  show ?thesis
    by (simp add: EMAIL_LOGIN_def first_render_def)
qed


text \<open>
  Claim C6. In the confirmation phase, that is, when the URL the component parses carries
  the verification flag: if the \<open>state\<close> parameter is missing (or empty), the only effect
  is the diagnostic \<open>console.error\<close>; no SDK call is made, the route, the URL and local
  storage are as before. If \<open>state\<close> is there and the \<open>email\<close> parameter is missing
  (or empty), the only effect is the change of route to the login route; no SDK call is
  made.
\<close>

theorem C6_confirmation_missing_parameters:
  assumes "truthy (searchParams_get ''openfortEmailVerificationUI'' (URL_new (fixedUrl h)))"
  shows "(\<not> truthy (searchParams_get ''state'' (URL_new (fixedUrl h))) \<longrightarrow>
            mount client k h storage =
              (first_render k h storage)\<lparr>effects := [ConsoleError ''No state found in URL'']\<rparr>
            \<and> effects (mount client k h storage) = [ConsoleError ''No state found in URL'']
            \<and> route (mount client k h storage) = EMAIL_VERIFICATION
            \<and> href (mount client k h storage) = h
            \<and> localStorage (mount client k h storage) = storage)
       \<and> (truthy (searchParams_get ''state'' (URL_new (fixedUrl h)))
            \<and> \<not> truthy (searchParams_get ''email'' (URL_new (fixedUrl h))) \<longrightarrow>
            mount client k h storage =
              (first_render k h storage)\<lparr>route := EMAIL_LOGIN, effects := [SetRoute EMAIL_LOGIN]\<rparr>
            \<and> effects (mount client k h storage) = [SetRoute ''emailLogin'']
            \<and> route (mount client k h storage) = ''emailLogin'')"
proof (intro conjI impI)
  assume ns: "\<not> truthy (searchParams_get ''state'' (URL_new (fixedUrl h)))"
  have m: "mount client k h storage =
      (first_render k h storage)\<lparr>effects := [ConsoleError ''No state found in URL'']\<rparr>"
    by (simp add: mount_unfold mount_effect_flag_no_state [OF assms ns] Let_def)
       (simp add: first_render_def)
  show "mount client k h storage =
      (first_render k h storage)\<lparr>effects := [ConsoleError ''No state found in URL'']\<rparr>"
    by (rule m)
  show "effects (mount client k h storage) = [ConsoleError ''No state found in URL'']"
    by (simp add: m)
  show "route (mount client k h storage) = EMAIL_VERIFICATION"
    by (simp add: m first_render_def)
  show "href (mount client k h storage) = h"
    by (simp add: m first_render_def)
  show "localStorage (mount client k h storage) = storage"
    by (simp add: m first_render_def)
next
  assume a: "truthy (searchParams_get ''state'' (URL_new (fixedUrl h)))
            \<and> \<not> truthy (searchParams_get ''email'' (URL_new (fixedUrl h)))"
  have m: "mount client k h storage =
      (first_render k h storage)\<lparr>route := EMAIL_LOGIN, effects := [SetRoute EMAIL_LOGIN]\<rparr>"
    using a
    by (simp add: mount_unfold mount_effect_flag_state_no_email [OF assms] Let_def)
       (simp add: first_render_def)
  show "mount client k h storage =
      (first_render k h storage)\<lparr>route := EMAIL_LOGIN, effects := [SetRoute EMAIL_LOGIN]\<rparr>"
    by (rule m)
  show "effects (mount client k h storage) = [SetRoute ''emailLogin'']"
    by (simp add: m EMAIL_LOGIN_def)
  show "route (mount client k h storage) = ''emailLogin''"
    by (simp add: m EMAIL_LOGIN_def)
qed

theorem C6_confirmation_missing_parameters_witness:
  "truthy (searchParams_get ''openfortEmailVerificationUI''
      (URL_new (fixedUrl ''https://app/callback?openfortEmailVerificationUI=true&email=a%40b.com'')))
   \<and> \<not> truthy (searchParams_get ''state''
      (URL_new (fixedUrl ''https://app/callback?openfortEmailVerificationUI=true&email=a%40b.com'')))
   \<and> effects (mount fulfilling_client ''emailToVerify''
        ''https://app/callback?openfortEmailVerificationUI=true&email=a%40b.com'' Map.empty) =
       [ConsoleError ''No state found in URL'']
   \<and> truthy (searchParams_get ''openfortEmailVerificationUI''
      (URL_new (fixedUrl ''https://app/callback?openfortEmailVerificationUI=true&state=XYZ'')))
   \<and> truthy (searchParams_get ''state''
      (URL_new (fixedUrl ''https://app/callback?openfortEmailVerificationUI=true&state=XYZ'')))
   \<and> \<not> truthy (searchParams_get ''email''
      (URL_new (fixedUrl ''https://app/callback?openfortEmailVerificationUI=true&state=XYZ'')))
   \<and> effects (mount fulfilling_client ''emailToVerify''
        ''https://app/callback?openfortEmailVerificationUI=true&state=XYZ'' Map.empty) =
       [SetRoute ''emailLogin'']"
proof -
  have f1: "truthy (searchParams_get ''openfortEmailVerificationUI''
      (URL_new (fixedUrl ''https://app/callback?openfortEmailVerificationUI=true&email=a%40b.com'')))"
    by (simp add: parse_missing_state searchParams_get_def)
  have s1: "\<not> truthy (searchParams_get ''state''
      (URL_new (fixedUrl ''https://app/callback?openfortEmailVerificationUI=true&email=a%40b.com'')))"
    by (simp add: parse_missing_state searchParams_get_def)
  have f2: "truthy (searchParams_get ''openfortEmailVerificationUI''
      (URL_new (fixedUrl ''https://app/callback?openfortEmailVerificationUI=true&state=XYZ'')))"
    by (simp add: parse_missing_email searchParams_get_def)
  have s2: "truthy (searchParams_get ''state''
      (URL_new (fixedUrl ''https://app/callback?openfortEmailVerificationUI=true&state=XYZ'')))"
    by (simp add: parse_missing_email searchParams_get_def)
  have e2: "\<not> truthy (searchParams_get ''email''
      (URL_new (fixedUrl ''https://app/callback?openfortEmailVerificationUI=true&state=XYZ'')))"
    by (simp add: parse_missing_email searchParams_get_def)
  from C6_confirmation_missing_parameters [OF f1, of fulfilling_client "''emailToVerify''" Map.empty]
       C6_confirmation_missing_parameters [OF f2, of fulfilling_client "''emailToVerify''" Map.empty]
       f1 s1 f2 s2 e2
  show ?thesis by (simp add: EMAIL_LOGIN_def EMAIL_VERIFICATION_def first_render_def)
qed


text \<open>
  Claim C5, amended. In the request phase (no verification flag in the URL the component
  parses, local storage holds the non-empty pending email \<open>e\<close>, and \<open>P\<close> is the URL up to
  its query), the component first removes the persisted email key from local storage and
  then, in the effect run of the next render, calls \<open>requestEmailVerification\<close> with the
  email \<open>e\<close> and the redirect URL \<open>P?openfortEmailVerificationUI=true&email=\<close> followed by
  the URL-encoded \<open>e\<close>; a rejection is logged and nothing else. It ends showing the
  "check your email" view with \<open>e\<close>, on the same route and URL.
\<close>

theorem C5_request_phase_removal_then_request:
  assumes "\<not> truthy (searchParams_get ''openfortEmailVerificationUI'' (URL_new (fixedUrl h)))"
    and "storage k = Some e" and "e \<noteq> []"
  shows "effects (mount client k h storage) =
           [LocalStorageRemoveItem k,
            SdkRequestEmailVerification e
              (before_query h @ ''?openfortEmailVerificationUI=true&email='' @ urlencoded_encode e)]
           @ (case requestEmailVerification client e
                     (before_query h @ ''?openfortEmailVerificationUI=true&email=''
                        @ urlencoded_encode e) of
                Rejected x \<Rightarrow> [ContextLog [Str ''Error requesting email verification'', Err x]]
              | _ \<Rightarrow> [])
       \<and> localStorage (mount client k h storage) = storage(k := None)
       \<and> render (mount client k h storage) = AWAITING_USER_CHECK (Some e)
       \<and> href (mount client k h storage) = h
       \<and> route (mount client k h storage) = EMAIL_VERIFICATION"
proof -
  let ?st2 = "(first_render k h storage)\<lparr>shouldSendEmailVerification := storage k,
              localStorage := storage(k := None), loading := False,
              effects := [LocalStorageRemoveItem k]\<rparr>"
  have t: "truthy (storage k)" using assms(2,3) by simp
  have me: "mount_effect client k (first_render k h storage) = ?st2"
    using mount_effect_no_flag_email [where s = storage and k = k, OF assms(1) t] .
  have sh: "shouldSendEmailVerification ?st2 = Some e"
    using assms(2) by simp
  have m: "mount client k h storage = send_effect client ?st2"
    using assms(2) by (simp add: mount_unfold me Let_def)
  show ?thesis
    unfolding m send_effect_should [OF sh assms(3)]
    using assms(2)
    by (simp add: redirectUrl_for_eq first_render_def render_def)
qed

theorem C5_request_phase_removal_then_request_witness:
  "\<not> truthy (searchParams_get ''openfortEmailVerificationUI''
                (URL_new (fixedUrl ''https://app/callback'')))
   \<and> [''emailToVerify'' \<mapsto> ''a@b.com''] ''emailToVerify'' = Some ''a@b.com''
   \<and> ''a@b.com'' \<noteq> []
   \<and> effects (mount fulfilling_client ''emailToVerify'' ''https://app/callback''
               [''emailToVerify'' \<mapsto> ''a@b.com'']) =
       [LocalStorageRemoveItem ''emailToVerify'',
        SdkRequestEmailVerification ''a@b.com''
          ''https://app/callback?openfortEmailVerificationUI=true&email=a%40b.com'']
   \<and> render (mount fulfilling_client ''emailToVerify'' ''https://app/callback''
               [''emailToVerify'' \<mapsto> ''a@b.com'']) = AWAITING_USER_CHECK (Some ''a@b.com'')"
proof -
  have f: "\<not> truthy (searchParams_get ''openfortEmailVerificationUI''
                (URL_new (fixedUrl ''https://app/callback'')))"
    by (simp add: fixedUrl_def URL_new_def before_query_def searchParams_get_def)
  have s: "[''emailToVerify'' \<mapsto> ''a@b.com''] ''emailToVerify'' = Some ''a@b.com''"
    by simp
  have n: "''a@b.com'' \<noteq> []" by simp
  have enc: "urlencoded_encode ''a@b.com'' = ''a%40b.com''"
    by code_simp
  have b: "before_query ''https://app/callback'' = ''https://app/callback''"
    by (simp add: before_query_def)
  from C5_request_phase_removal_then_request
         [where h = "''https://app/callback''" and storage = "[''emailToVerify'' \<mapsto> ''a@b.com'']"
            and k = "''emailToVerify''" and client = fulfilling_client and e = "''a@b.com''",
          OF f s n] f
  show ?thesis
    by (simp add: enc b fulfilling_client_def)
qed


text \<open>
  Claim C5 as stated says that the request is issued before the key is removed. At the
  URL \<open>https://app/callback\<close> with the pending email \<open>a@b.com\<close> the effects are the
  removal and then the request: the request does not come before the removal.
\<close>

theorem C5_request_before_removal_counterexample:
  "effects (mount fulfilling_client ''emailToVerify'' ''https://app/callback''
               [''emailToVerify'' \<mapsto> ''a@b.com'']) =
       [LocalStorageRemoveItem ''emailToVerify'',
        SdkRequestEmailVerification ''a@b.com''
          ''https://app/callback?openfortEmailVerificationUI=true&email=a%40b.com'']
   \<and> \<not> occurs_before
         (SdkRequestEmailVerification ''a@b.com''
            ''https://app/callback?openfortEmailVerificationUI=true&email=a%40b.com'')
         (LocalStorageRemoveItem ''emailToVerify'')
         (effects (mount fulfilling_client ''emailToVerify'' ''https://app/callback''
               [''emailToVerify'' \<mapsto> ''a@b.com'']))"
proof -
  have e: "effects (mount fulfilling_client ''emailToVerify'' ''https://app/callback''
               [''emailToVerify'' \<mapsto> ''a@b.com'']) =
       [LocalStorageRemoveItem ''emailToVerify'',
        SdkRequestEmailVerification ''a@b.com''
          ''https://app/callback?openfortEmailVerificationUI=true&email=a%40b.com'']"
    by code_simp
  show ?thesis
    unfolding e by (simp add: occurs_before_def)
qed


text \<open>
  Claim C2. In the confirmation phase, with the verification flag, a non-empty \<open>state\<close>
  and a non-empty \<open>email\<close> in the URL the component parses: \<open>verifyEmail\<close> is called with
  that email and state. When the call succeeds, the result is \<open>{success: true}\<close>. When it
  rejects, the result is \<open>{success: false, error: msg}\<close> with a non-empty \<open>msg\<close>, and the
  error it rejected with is logged. In both cases the URL is replaced in place
  (\<open>history.replaceState\<close>) by one that, parsed again, has none of the parameters
  \<open>state\<close>, \<open>email\<close> and \<open>openfortEmailVerificationUI\<close> and the same origin and path; the
  component shows the result (DONE) and the route is not changed.
\<close>

theorem C2_confirmation_result:
  assumes "truthy (searchParams_get ''openfortEmailVerificationUI'' (URL_new (fixedUrl h)))"
    and "searchParams_get ''state'' (URL_new (fixedUrl h)) = Some st" and "st \<noteq> []"
    and "searchParams_get ''email'' (URL_new (fixedUrl h)) = Some em" and "em \<noteq> []"
  shows "(verifyEmail client em st = Fulfilled \<longrightarrow>
            verificationResponse (mount client k h storage) = Some \<lparr>success = True, error = None\<rparr>
            \<and> effects (mount client k h storage) =
                [ContextLog [Str ''EmailVerification'', Str st, Str em],
                 SdkVerifyEmail em st,
                 HistoryReplaceState (href (mount client k h storage))])
       \<and> (\<forall>x. verifyEmail client em st = Rejected x \<longrightarrow>
            (\<exists>msg. msg \<noteq> []
               \<and> verificationResponse (mount client k h storage) =
                   Some \<lparr>success = False, error = Some msg\<rparr>)
            \<and> effects (mount client k h storage) =
                [ContextLog [Str ''EmailVerification'', Str st, Str em],
                 SdkVerifyEmail em st,
                 ContextLog [Str ''Error verifying email'', Err x],
                 HistoryReplaceState (href (mount client k h storage))])
       \<and> (verifyEmail client em st \<noteq> Pending \<longrightarrow>
            searchParams_get ''state'' (URL_new (href (mount client k h storage))) = None
            \<and> searchParams_get ''email'' (URL_new (href (mount client k h storage))) = None
            \<and> searchParams_get ''openfortEmailVerificationUI''
                (URL_new (href (mount client k h storage))) = None
            \<and> url_base (URL_new (href (mount client k h storage))) = before_query (fixedUrl h)
            \<and> (\<exists>v. render (mount client k h storage) = DONE v)
            \<and> route (mount client k h storage) = EMAIL_VERIFICATION)"
proof -
  let ?u = "URL_new (fixedUrl h)"
  let ?p = "(first_render k h storage)\<lparr>effects := [ContextLog [Str ''EmailVerification'', Str st, Str em]]\<rparr>"
  have m: "mount client k h storage = verify_block client ?u em st ?p"
    using assms by (rule mount_confirm)
  have parsed: "URL_new (URL_toString (strip_params ?u)) = strip_params ?u"
    by (rule URL_new_strip_params)
  have base: "url_base (strip_params ?u) = before_query (fixedUrl h)"
    by (simp add: strip_params_def searchParams_delete_def url_base_URL_new)
  have ok: "verifyEmail client em st = Fulfilled \<longrightarrow>
            verificationResponse (mount client k h storage) = Some \<lparr>success = True, error = None\<rparr>
            \<and> effects (mount client k h storage) =
                [ContextLog [Str ''EmailVerification'', Str st, Str em],
                 SdkVerifyEmail em st,
                 HistoryReplaceState (href (mount client k h storage))]"
    by (simp add: m verify_block_fulfilled)
  have bad: "\<forall>x. verifyEmail client em st = Rejected x \<longrightarrow>
            (\<exists>msg. msg \<noteq> []
               \<and> verificationResponse (mount client k h storage) =
                   Some \<lparr>success = False, error = Some msg\<rparr>)
            \<and> effects (mount client k h storage) =
                [ContextLog [Str ''EmailVerification'', Str st, Str em],
                 SdkVerifyEmail em st,
                 ContextLog [Str ''Error verifying email'', Err x],
                 HistoryReplaceState (href (mount client k h storage))]"
    by (simp add: m verify_block_rejected verification_failed_message_def)
  have both: "verifyEmail client em st \<noteq> Pending \<longrightarrow>
            searchParams_get ''state'' (URL_new (href (mount client k h storage))) = None
            \<and> searchParams_get ''email'' (URL_new (href (mount client k h storage))) = None
            \<and> searchParams_get ''openfortEmailVerificationUI''
                (URL_new (href (mount client k h storage))) = None
            \<and> url_base (URL_new (href (mount client k h storage))) = before_query (fixedUrl h)
            \<and> (\<exists>v. render (mount client k h storage) = DONE v)
            \<and> route (mount client k h storage) = EMAIL_VERIFICATION"
  proof
    assume np: "verifyEmail client em st \<noteq> Pending"
    have hr: "href (mount client k h storage) = URL_toString (strip_params ?u)"
      using np by (cases "verifyEmail client em st")
        (simp_all add: m verify_block_fulfilled verify_block_rejected)
    have rd: "\<exists>v. render (mount client k h storage) = DONE v"
      using np by (cases "verifyEmail client em st")
        (simp_all add: m verify_block_fulfilled verify_block_rejected render_def)
    have rt: "route (mount client k h storage) = EMAIL_VERIFICATION"
      using np by (cases "verifyEmail client em st")
        (simp_all add: m verify_block_fulfilled verify_block_rejected first_render_def)
    show "searchParams_get ''state'' (URL_new (href (mount client k h storage))) = None
            \<and> searchParams_get ''email'' (URL_new (href (mount client k h storage))) = None
            \<and> searchParams_get ''openfortEmailVerificationUI''
                (URL_new (href (mount client k h storage))) = None
            \<and> url_base (URL_new (href (mount client k h storage))) = before_query (fixedUrl h)
            \<and> (\<exists>v. render (mount client k h storage) = DONE v)
            \<and> route (mount client k h storage) = EMAIL_VERIFICATION"
      unfolding hr parsed using strip_params_get [of ?u] base rd rt by simp
  qed
  from ok bad both show ?thesis by blast
qed

theorem C2_confirmation_result_witness:
  "truthy (searchParams_get ''openfortEmailVerificationUI'' (URL_new (fixedUrl
     ''https://app/callback?openfortEmailVerificationUI=true&state=XYZ&email=a%40b.com'')))
   \<and> searchParams_get ''state'' (URL_new (fixedUrl
     ''https://app/callback?openfortEmailVerificationUI=true&state=XYZ&email=a%40b.com'')) =
       Some ''XYZ''
   \<and> searchParams_get ''email'' (URL_new (fixedUrl
     ''https://app/callback?openfortEmailVerificationUI=true&state=XYZ&email=a%40b.com'')) =
       Some ''a@b.com''
   \<and> verifyEmail fulfilling_client ''a@b.com'' ''XYZ'' = Fulfilled
   \<and> verificationResponse (mount fulfilling_client ''emailToVerify''
        ''https://app/callback?openfortEmailVerificationUI=true&state=XYZ&email=a%40b.com''
        Map.empty) = Some \<lparr>success = True, error = None\<rparr>
   \<and> searchParams_get ''state'' (URL_new (href (mount fulfilling_client ''emailToVerify''
        ''https://app/callback?openfortEmailVerificationUI=true&state=XYZ&email=a%40b.com''
        Map.empty))) = None
   \<and> verifyEmail rejecting_client ''a@b.com'' ''XYZ'' = Rejected ''invalid state''
   \<and> effects (mount rejecting_client ''emailToVerify''
        ''https://app/callback?openfortEmailVerificationUI=true&state=XYZ&email=a%40b.com''
        Map.empty) =
       [ContextLog [Str ''EmailVerification'', Str ''XYZ'', Str ''a@b.com''],
        SdkVerifyEmail ''a@b.com'' ''XYZ'',
        ContextLog [Str ''Error verifying email'', Err ''invalid state''],
        HistoryReplaceState (href (mount rejecting_client ''emailToVerify''
        ''https://app/callback?openfortEmailVerificationUI=true&state=XYZ&email=a%40b.com''
        Map.empty))]
   \<and> searchParams_get ''email'' (URL_new (href (mount rejecting_client ''emailToVerify''
        ''https://app/callback?openfortEmailVerificationUI=true&state=XYZ&email=a%40b.com''
        Map.empty))) = None"
proof -
  let ?h = "''https://app/callback?openfortEmailVerificationUI=true&state=XYZ&email=a%40b.com''"
  have f: "truthy (searchParams_get ''openfortEmailVerificationUI'' (URL_new (fixedUrl ?h)))"
    by (simp add: parse_confirmation_url searchParams_get_def)
  have s: "searchParams_get ''state'' (URL_new (fixedUrl ?h)) = Some ''XYZ''"
    by (simp add: parse_confirmation_url searchParams_get_def)
  have e: "searchParams_get ''email'' (URL_new (fixedUrl ?h)) = Some ''a@b.com''"
    by (simp add: parse_confirmation_url searchParams_get_def)
  have n1: "''XYZ'' \<noteq> []" and n2: "''a@b.com'' \<noteq> []" by simp_all
  have v1: "verifyEmail fulfilling_client ''a@b.com'' ''XYZ'' = Fulfilled"
    by (simp add: fulfilling_client_def)
  have v2: "verifyEmail rejecting_client ''a@b.com'' ''XYZ'' = Rejected ''invalid state''"
    by (simp add: rejecting_client_def)
  from C2_confirmation_result [OF f s n1 e n2, of fulfilling_client "''emailToVerify''" Map.empty]
       C2_confirmation_result [OF f s n1 e n2, of rejecting_client "''emailToVerify''" Map.empty]
       f s e v1 v2
  show ?thesis by simp
qed

text \<open>
  Claim C4, amended. The replacement of the first \<open>?state=\<close> by \<open>&state=\<close> repairs the
  redirect URL that the flow itself sent (\<open>P?openfortEmailVerificationUI=true&email=E\<close>) when
  the provider has appended \<open>?state=TOKEN\<close> to it: the repaired URL is the well-formed
  \<open>P?openfortEmailVerificationUI=true&email=E&state=TOKEN\<close>, which the replacement leaves
  as it is. Both URLs are parsed to the same three parameters (the flag \<open>true\<close>, the email
  and the state token), and mounting the component on either of them gives the same effects,
  the same view, the same route and the same verification result.
\<close>

theorem C4_appended_state_normalized:
  "fixedUrl (redirectUrl_for h0 e @ ''?state='' @ urlencoded_encode t) =
     redirectUrl_for h0 e @ ''&state='' @ urlencoded_encode t
   \<and> fixedUrl (redirectUrl_for h0 e @ ''&state='' @ urlencoded_encode t) =
     redirectUrl_for h0 e @ ''&state='' @ urlencoded_encode t
   \<and> URL_new (fixedUrl (redirectUrl_for h0 e @ ''?state='' @ urlencoded_encode t)) =
       \<lparr>url_base = before_query h0,
        searchParams = [(''openfortEmailVerificationUI'', ''true''), (''email'', e), (''state'', t)],
        url_fragment = None\<rparr>
   \<and> URL_new (fixedUrl (redirectUrl_for h0 e @ ''&state='' @ urlencoded_encode t)) =
       \<lparr>url_base = before_query h0,
        searchParams = [(''openfortEmailVerificationUI'', ''true''), (''email'', e), (''state'', t)],
        url_fragment = None\<rparr>
   \<and> effects (mount client k (redirectUrl_for h0 e @ ''?state='' @ urlencoded_encode t) storage) =
     effects (mount client k (redirectUrl_for h0 e @ ''&state='' @ urlencoded_encode t) storage)
   \<and> render (mount client k (redirectUrl_for h0 e @ ''?state='' @ urlencoded_encode t) storage) =
     render (mount client k (redirectUrl_for h0 e @ ''&state='' @ urlencoded_encode t) storage)
   \<and> route (mount client k (redirectUrl_for h0 e @ ''?state='' @ urlencoded_encode t) storage) =
     route (mount client k (redirectUrl_for h0 e @ ''&state='' @ urlencoded_encode t) storage)
   \<and> verificationResponse
       (mount client k (redirectUrl_for h0 e @ ''?state='' @ urlencoded_encode t) storage) =
     verificationResponse
       (mount client k (redirectUrl_for h0 e @ ''&state='' @ urlencoded_encode t) storage)"
proof -
  let ?m = "redirectUrl_for h0 e @ ''?state='' @ urlencoded_encode t"
  let ?w = "redirectUrl_for h0 e @ ''&state='' @ urlencoded_encode t"
  have fm: "fixedUrl ?m = ?w"
    by (rule fixedUrl_appended_state)
  have fw: "fixedUrl ?w = ?w"
    using encoded_no_separators [of t] by (intro fixedUrl_wellformed) simp
  have bq: "before_query ?m = before_query ?w"
    by (simp only: before_query_redirectUrl_for)
  have eq: "(mount client k ?m storage)\<lparr>href := []\<rparr> = (mount client k ?w storage)\<lparr>href := []\<rparr>"
    using fm fw bq by (intro mount_depends_on) simp_all
  have e1: "effects (mount client k ?m storage) = effects (mount client k ?w storage)"
    using arg_cong [OF eq, of effects] by simp
  have l: "loading (mount client k ?m storage) = loading (mount client k ?w storage)"
    using arg_cong [OF eq, of loading] by simp
  have es: "emailInStorage (mount client k ?m storage) = emailInStorage (mount client k ?w storage)"
    using arg_cong [OF eq, of emailInStorage] by simp
  have e3: "route (mount client k ?m storage) = route (mount client k ?w storage)"
    using arg_cong [OF eq, of route] by simp
  have e4: "verificationResponse (mount client k ?m storage) =
            verificationResponse (mount client k ?w storage)"
    using arg_cong [OF eq, of verificationResponse] by simp
  have e2: "render (mount client k ?m storage) = render (mount client k ?w storage)"
    unfolding render_def l es e4 ..
  show ?thesis
    unfolding fm fw URL_new_wellformed using e1 e2 e3 e4 by simp
qed

text \<open>
  Claim C4 as stated is about a URL whose query begins with \<open>state\<close>. There the replacement
  turns the only \<open>?\<close> into \<open>&\<close>, the URL is left without a query, the flag is not found,
  and with no pending email the component goes to the login route, while the well-formed
  URL enters the confirmation phase and calls \<open>verifyEmail\<close>.
\<close>

theorem C4_malformed_redirect_counterexample:
  "searchParams_get ''openfortEmailVerificationUI''
     (URL_new (fixedUrl
        ''https://app/callback?state=XYZ&email=a@b.com&openfortEmailVerificationUI=true'')) = None
   \<and> searchParams_get ''openfortEmailVerificationUI''
     (URL_new (fixedUrl
        ''https://app/callback?openfortEmailVerificationUI=true&state=XYZ&email=a@b.com'')) =
       Some ''true''
   \<and> effects (mount fulfilling_client ''emailToVerify''
        ''https://app/callback?state=XYZ&email=a@b.com&openfortEmailVerificationUI=true''
        Map.empty) = [SetRoute ''emailLogin'']
   \<and> effects (mount fulfilling_client ''emailToVerify''
        ''https://app/callback?openfortEmailVerificationUI=true&state=XYZ&email=a@b.com''
        Map.empty) =
       [ContextLog [Str ''EmailVerification'', Str ''XYZ'', Str ''a@b.com''],
        SdkVerifyEmail ''a@b.com'' ''XYZ'',
        HistoryReplaceState ''https://app/callback'']"
proof -
  have a: "searchParams_get ''openfortEmailVerificationUI''
     (URL_new (fixedUrl
        ''https://app/callback?state=XYZ&email=a@b.com&openfortEmailVerificationUI=true'')) = None"
    by code_simp
  have b: "searchParams_get ''openfortEmailVerificationUI''
     (URL_new (fixedUrl
        ''https://app/callback?openfortEmailVerificationUI=true&state=XYZ&email=a@b.com'')) =
       Some ''true''"
    by code_simp
  have c: "effects (mount fulfilling_client ''emailToVerify''
        ''https://app/callback?state=XYZ&email=a@b.com&openfortEmailVerificationUI=true''
        Map.empty) = [SetRoute ''emailLogin'']"
    by code_simp
  have d: "effects (mount fulfilling_client ''emailToVerify''
        ''https://app/callback?openfortEmailVerificationUI=true&state=XYZ&email=a@b.com''
        Map.empty) =
       [ContextLog [Str ''EmailVerification'', Str ''XYZ'', Str ''a@b.com''],
        SdkVerifyEmail ''a@b.com'' ''XYZ'',
        HistoryReplaceState ''https://app/callback'']"
    by code_simp
  from a b c d show ?thesis by simp
qed

end
